theory Spec2Isabelle
  imports Main "HOL-Library.Word" "HOL-Library.AList"
begin

section \<open>Values exchanged with the environment\<close>

text \<open>
  The library is one JavaScript class, \<open>P2PFileTransfer\<close>. This theory embeds its
  methods as HOL functions over an explicit state. Binary payloads (ArrayBuffers) are
  byte lists, JavaScript strings are \<open>string\<close>, the values read from parsed JSON
  and from signalling messages are \<open>jsval\<close>.
\<close>

type_synonym byte = "8 word"
type_synonym bytes = "byte list"
type_synonym peerId = string
type_synonym sdp = string

datatype jsval =
    JUndefined
  | JNull
  | JBool bool
  | JNum int
  | JStr string
  | JArr "jsval list"
  | JObj "(string \<times> jsval) list"

datatype error =
    SyntaxError
  | TypeError
  | InvalidStateError
  | NegotiatorError string

text \<open>
  Property read \<open>v.k\<close> for the property names the source reads (\<open>type\<close>,
  \<open>fileName\<close>, \<open>fileSize\<close>, \<open>fileType\<close>): it throws a TypeError on
  \<open>null\<close> and \<open>undefined\<close>, gives the stored value on an object and \<open>undefined\<close>
  on every other value.
\<close>

fun get_prop :: "jsval \<Rightarrow> string \<Rightarrow> error + jsval" where
  "get_prop JUndefined k = Inl TypeError"
| "get_prop JNull k = Inl TypeError"
| "get_prop (JObj fs) k = (case map_of fs k of Some v \<Rightarrow> Inr v | None \<Rightarrow> Inr JUndefined)"
| "get_prop v k = Inr JUndefined"

text \<open>JavaScript truthiness, as \<open>if (peerData.fileMetadata)\<close> tests it.\<close>

fun truthy :: "jsval \<Rightarrow> bool" where
  "truthy JUndefined = False"
| "truthy JNull = False"
| "truthy (JBool b) = b"
| "truthy (JNum n) = (n \<noteq> 0)"
| "truthy (JStr s) = (s \<noteq> [])"
| "truthy (JArr xs) = True"
| "truthy (JObj fs) = True"

record jsfile =
  file_name :: string
  file_type :: string
  file_bytes :: bytes

definition file_size :: "jsfile \<Rightarrow> nat" where
  "file_size f = length (file_bytes f)"

text \<open>\<open>blob.slice(start, end)\<close>: the bytes from \<open>start\<close> up to \<open>end\<close>, clamped to the blob.\<close>

definition slice :: "bytes \<Rightarrow> nat \<Rightarrow> nat \<Rightarrow> bytes" where
  "slice b s e = take (e - s) (drop s b)"

record blob =
  blob_bytes :: bytes
  blob_type :: jsval

text \<open>\<open>new Blob(parts, {type})\<close>: the parts concatenated in order.\<close>

definition Blob :: "bytes list \<Rightarrow> jsval \<Rightarrow> blob" where
  "Blob parts t = \<lparr>blob_bytes = concat parts, blob_type = t\<rparr>"

definition blob_size :: "blob \<Rightarrow> nat" where
  "blob_size b = length (blob_bytes b)"

section \<open>The data channel\<close>

datatype frame = Text string | Binary bytes

fun frame_len :: "frame \<Rightarrow> nat" where
  "frame_len (Text s) = length s"
| "frame_len (Binary b) = length b"

datatype readyState = RS_connecting | RS_open | RS_closing | RS_closed

record channel =
  readyState :: readyState
  bufferedAmount :: nat

text \<open>
  \<open>channel.send(data)\<close>: throws InvalidStateError unless the channel is open; otherwise
  the frame is queued and \<open>bufferedAmount\<close> grows by its length.
\<close>

definition channel_send :: "channel \<Rightarrow> frame \<Rightarrow> error + channel" where
  "channel_send ch f =
     (if readyState ch = RS_open
      then Inr (ch\<lparr>bufferedAmount := bufferedAmount ch + frame_len f\<rparr>)
      else Inl InvalidStateError)"

text \<open>
  What the transport does while the sender is suspended (between \<open>readSlice\<close> and
  \<open>reader.onload\<close>, or during a timer): it drains some queued bytes and may leave the
  open state. A closed channel never reopens.
\<close>

record env_step =
  drain :: nat
  closes :: bool

definition env_pass :: "env_step \<Rightarrow> channel \<Rightarrow> channel" where
  "env_pass e ch =
     \<lparr>readyState = (if closes e then RS_closed else readyState ch),
      bufferedAmount = bufferedAmount ch - drain e\<rparr>"

section \<open>Observable effects\<close>

datatype connState = CS_new | CS_connecting | CS_connected | CS_disconnected | CS_failed | CS_closed

datatype signal =
    SigOffer sdp jsval jsval jsval
  | SigAnswer sdp
  | SigIceCandidate jsval
  | SigOther

datatype effect =
    ChannelSend frame
  | OnProgress nat jsval
  | OnComplete blob jsval peerId
  | OnError error
  | OnConnectionStateChange peerId connState
  | SetTimeout nat
  | EmitSignal peerId signal
  | UnhandledRejection error

section \<open>Sender: \<open>_sendFileInChunks\<close>\<close>

record sender =
  chan :: channel
  offset :: nat
  effects :: "effect list"
  tick :: nat

definition metadata_msg :: "jsfile \<Rightarrow> jsval" where
  "metadata_msg f =
     JObj [(''type'', JStr ''metadata''),
           (''fileName'', JStr (file_name f)),
           (''fileSize'', JNum (int (file_size f))),
           (''fileType'', JStr (file_type f))]"

definition end_msg :: jsval where
  "end_msg = JObj [(''type'', JStr ''end'')]"

text \<open>
  One round of the read loop: \<open>readSlice()\<close> takes the slice at the current offset, the
  transport runs for one step (\<open>env (tick s)\<close>), then \<open>reader.onload\<close> runs. The loop
  ends when the channel is not open, or after the end frame. \<open>stringify\<close> is
  \<open>JSON.stringify\<close>, \<open>C\<close> is \<open>this.chunkSize\<close>. With \<open>C = 0\<close> and a non-empty file the
  loop never ends, which is the value \<open>None\<close>.
\<close>

partial_function (option) readLoop ::
  "nat \<Rightarrow> (jsval \<Rightarrow> string) \<Rightarrow> (nat \<Rightarrow> env_step) \<Rightarrow> jsfile \<Rightarrow> sender \<Rightarrow> (error + sender) option"
where
  "readLoop C stringify env f s =
     (let result = slice (file_bytes f) (offset s) (offset s + C);
          ch = env_pass (env (tick s)) (chan s)
      in if readyState ch = RS_open then
           (case channel_send ch (Binary result) of
              Inl e \<Rightarrow> Some (Inl e)
            | Inr ch1 \<Rightarrow>
               (let off = offset s + length result;
                    fx = effects s @ [ChannelSend (Binary result),
                                      OnProgress off (JNum (int (file_size f)))]
                in if off < file_size f then
                     (if bufferedAmount ch1 > C * 10
                      then readLoop C stringify env f
                             \<lparr>chan = env_pass (env (tick s + 1)) ch1, offset = off,
                              effects = fx @ [SetTimeout 100], tick = tick s + 2\<rparr>
                      else readLoop C stringify env f
                             \<lparr>chan = ch1, offset = off, effects = fx, tick = tick s + 1\<rparr>)
                   else
                     (case channel_send ch1 (Text (stringify end_msg)) of
                        Inl e \<Rightarrow> Some (Inl e)
                      | Inr ch2 \<Rightarrow>
                          Some (Inr \<lparr>chan = ch2, offset = off,
                                     effects = fx @ [ChannelSend (Text (stringify end_msg))],
                                     tick = tick s + 1\<rparr>))))
         else Some (Inr \<lparr>chan = ch, offset = offset s, effects = effects s, tick = tick s + 1\<rparr>))"

declare readLoop.simps [code]

definition sendFileInChunks ::
  "nat \<Rightarrow> (jsval \<Rightarrow> string) \<Rightarrow> (nat \<Rightarrow> env_step) \<Rightarrow> channel \<Rightarrow> jsfile \<Rightarrow> (error + sender) option"
where
  "sendFileInChunks C stringify env ch f =
     (case channel_send ch (Text (stringify (metadata_msg f))) of
        Inl e \<Rightarrow> Some (Inl e)
      | Inr ch1 \<Rightarrow>
          readLoop C stringify env f
            \<lparr>chan = ch1, offset = 0,
             effects = [ChannelSend (Text (stringify (metadata_msg f)))], tick = 0\<rparr>)"

text \<open>The frames handed to the channel, and the binary chunks among them, in order.\<close>

fun sent_frames :: "effect list \<Rightarrow> frame list" where
  "sent_frames [] = []"
| "sent_frames (ChannelSend fr # es) = fr # sent_frames es"
| "sent_frames (e # es) = sent_frames es"

fun payloads :: "frame list \<Rightarrow> bytes list" where
  "payloads [] = []"
| "payloads (Binary b # frs) = b # payloads frs"
| "payloads (Text t # frs) = payloads frs"

definition sent_chunks :: "effect list \<Rightarrow> bytes list" where
  "sent_chunks es = payloads (sent_frames es)"

text \<open>
  The pacing that claim C2, as amended, describes, written over the list of chunks and
  to be compared with the loop above. Each chunk is queued and reported. When more
  chunks follow and the queue, measured right after the chunk was queued, exceeds ten
  chunk sizes, a timer of 100 ms precedes the next chunk, which is then queued without
  a further test. \<open>b\<close> is \<open>bufferedAmount\<close> when the read of the chunk starts, \<open>t\<close> the
  step of the transport, \<open>n\<close> the size of the file, \<open>off\<close> the offset of the chunk.
\<close>

fun backoff_schedule ::
  "nat \<Rightarrow> (nat \<Rightarrow> env_step) \<Rightarrow> nat \<Rightarrow> nat \<Rightarrow> nat \<Rightarrow> nat \<Rightarrow> bytes list \<Rightarrow> effect list"
where
  "backoff_schedule C env n t b off [] = []"
| "backoff_schedule C env n t b off (c # cs) =
     (let queued = b - drain (env t) + length c; sent = off + length c
      in [ChannelSend (Binary c), OnProgress sent (JNum (int n))] @
         (if cs = [] then []
          else if C * 10 < queued
            then SetTimeout 100 #
                 backoff_schedule C env n (t + 2) (queued - drain (env (t + 1))) sent cs
            else backoff_schedule C env n (t + 1) queued sent cs))"

section \<open>The coordinator's state\<close>

text \<open>
  \<open>this.peers\<close> is a JavaScript \<open>Map\<close>: an association list in insertion order, from a
  peer identifier to a reference to its \<open>peerData\<close> object. The objects live in
  \<open>heap\<close>, a reference is an index into it: handlers keep a reference to a
  \<open>peerData\<close> object after its entry has left the map. A \<open>peerData\<close> object and its
  \<open>RTCPeerConnection\<close> are created together, so a reference to one is a reference to the
  other and the state of the connection is the field \<open>pc\<close>.
\<close>

record pconn =
  pc_closed :: bool
  pc_dataChannels :: "jsfile list"

record peerData =
  pc :: pconn
  isInitiator :: bool
  receivedChunks :: "bytes list"
  receivedBytes :: nat
  fileMetadata :: jsval

record transfer =
  peers :: "(peerId \<times> nat) list"
  heap :: "peerData list"
  receivers :: "(peerId \<times> nat option) list"
  log :: "effect list"
  listening :: bool
  chunkSize :: nat

text \<open>
  What the session negotiator (the browser's WebRTC implementation) answers to the calls
  of one run of \<open>sendFile\<close> or \<open>_handleSignal\<close>: \<open>Some e\<close> or \<open>Inl e\<close> is a throw or a
  rejected promise.
\<close>

record negotiation =
  construct :: "error option"
  createOffer :: "error + sdp"
  createAnswer :: "error + sdp"
  setLocalDescription :: "error option"
  setRemoteDescription :: "error option"
  addIceCandidate :: "error option"

text \<open>How the promise of an \<open>async\<close> method settles.\<close>

datatype settled = Resolved | Rejected error

text \<open>The constructor: an empty map, chunk size 16384, the signal listener attached.\<close>

definition P2PFileTransfer :: transfer where
  "P2PFileTransfer =
     \<lparr>peers = [], heap = [], receivers = [], log = [], listening = True, chunkSize = 16384\<rparr>"

definition callback :: "transfer \<Rightarrow> effect \<Rightarrow> transfer" where
  "callback T e = T\<lparr>log := log T @ [e]\<rparr>"

definition mutate :: "transfer \<Rightarrow> nat \<Rightarrow> (peerData \<Rightarrow> peerData) \<Rightarrow> transfer" where
  "mutate T a g = T\<lparr>heap := (heap T)[a := g (heap T ! a)]\<rparr>"

text \<open>
  A property read that cannot throw: used where the source has already tested that the
  value is truthy, hence neither \<open>null\<close> nor \<open>undefined\<close>.
\<close>

definition read_prop :: "jsval \<Rightarrow> string \<Rightarrow> jsval" where
  "read_prop v k = (case get_prop v k of Inl e \<Rightarrow> JUndefined | Inr x \<Rightarrow> x)"

section \<open>The session registry\<close>

definition new_peerData :: "bool \<Rightarrow> peerData" where
  "new_peerData isInit =
     \<lparr>pc = \<lparr>pc_closed = False, pc_dataChannels = []\<rparr>, isInitiator = isInit,
      receivedChunks = [], receivedBytes = 0, fileMetadata = JNull\<rparr>"

text \<open>
  \<open>_getOrCreatePeerConnection\<close>. It has no \<open>await\<close>: the test \<open>has\<close> and the insertion
  \<open>set\<close> run without interruption. The result is the reference to the connection, or the
  error \<open>new RTCPeerConnection\<close> threw.
\<close>

definition getOrCreatePeerConnection ::
  "negotiation \<Rightarrow> transfer \<Rightarrow> peerId \<Rightarrow> bool \<Rightarrow> (error + nat) \<times> transfer"
where
  "getOrCreatePeerConnection neg T peerId isInit =
     (case map_of (peers T) peerId of
        Some a \<Rightarrow> (Inr a, T)
      | None \<Rightarrow>
          (case construct neg of
             Some e \<Rightarrow> (Inl e, T)
           | None \<Rightarrow>
               (Inr (length (heap T)),
                T\<lparr>heap := heap T @ [new_peerData isInit],
                  peers := AList.update peerId (length (heap T)) (peers T)\<rparr>)))"

text \<open>\<open>_cleanupPeer\<close>: closes the connection of the registered session and deletes the entry.\<close>

definition cleanupPeer :: "transfer \<Rightarrow> peerId \<Rightarrow> transfer" where
  "cleanupPeer T peerId =
     (case map_of (peers T) peerId of
        None \<Rightarrow> T
      | Some a \<Rightarrow>
          (mutate T a (\<lambda>pd. pd\<lparr>pc := (pc pd)\<lparr>pc_closed := True\<rparr>\<rparr>))
            \<lparr>peers := AList.delete peerId (peers T)\<rparr>)"

text \<open>\<open>destroy\<close>: \<open>forEach\<close> visits every entry once, each visit deletes the entry visited.\<close>

definition destroy :: "transfer \<Rightarrow> transfer" where
  "destroy T = (fold (\<lambda>peerId T'. cleanupPeer T' peerId) (map fst (peers T)) T)\<lparr>listening := False\<rparr>"

section \<open>Receiver\<close>

text \<open>\<open>_assembleFile\<close>: looks the session up in the map, not in the handler's closure.\<close>

definition assembleFile :: "transfer \<Rightarrow> peerId \<Rightarrow> transfer" where
  "assembleFile T peerId =
     (case map_of (peers T) peerId of
        None \<Rightarrow> T
      | Some a \<Rightarrow>
          (let peerData = heap T ! a in
           if \<not> truthy (fileMetadata peerData) then T
           else
             (let b = Blob (receivedChunks peerData) (read_prop (fileMetadata peerData) ''fileType'')
              in cleanupPeer
                   (callback T (OnComplete b (read_prop (fileMetadata peerData) ''fileName'') peerId))
                   peerId)))"

text \<open>
  \<open>channel.onmessage\<close> of a receiving channel, as \<open>_setupDataChannel\<close> installs it:
  \<open>peerId\<close> and \<open>captured\<close> are the closure's \<open>peerId\<close> and \<open>peerData\<close> (\<open>None\<close> when
  \<open>this.peers.get(peerId)\<close> was \<open>undefined\<close> at set-up). \<open>parse\<close> is \<open>JSON.parse\<close>,
  \<open>None\<close> when it throws. The handler is \<open>async\<close> and has no \<open>try\<close>: a throw rejects
  its promise, which nothing observes.
\<close>

definition onmessage ::
  "(string \<Rightarrow> jsval option) \<Rightarrow> transfer \<Rightarrow> peerId \<Rightarrow> nat option \<Rightarrow> frame \<Rightarrow> settled \<times> transfer"
where
  "onmessage parse T peerId captured data =
     (case data of
        Text str \<Rightarrow>
          (case parse str of
             None \<Rightarrow> (Rejected SyntaxError, T)
           | Some metadata \<Rightarrow>
               (case get_prop metadata ''type'' of
                  Inl e \<Rightarrow> (Rejected e, T)
                | Inr ty \<Rightarrow>
                    if ty = JStr ''metadata'' then
                      (case captured of
                         None \<Rightarrow> (Rejected TypeError, T)
                       | Some a \<Rightarrow>
                           (Resolved, mutate T a (\<lambda>pd. pd\<lparr>fileMetadata := metadata\<rparr>)))
                    else if ty = JStr ''end'' then (Resolved, assembleFile T peerId)
                    else (Resolved, T)))
      | Binary chunk \<Rightarrow>
          (case captured of
             None \<Rightarrow> (Rejected TypeError, T)
           | Some a \<Rightarrow>
               (let T1 = mutate T a
                           (\<lambda>pd. pd\<lparr>receivedChunks := receivedChunks pd @ [chunk],
                                    receivedBytes := receivedBytes pd + length chunk\<rparr>);
                    peerData = heap T1 ! a
                in if truthy (fileMetadata peerData)
                   then (Resolved,
                         callback T1 (OnProgress (receivedBytes peerData)
                                        (read_prop (fileMetadata peerData) ''fileSize'')))
                   else (Resolved, T1))))"

section \<open>Signalling: \<open>sendFile\<close> and \<open>_handleSignal\<close>\<close>

text \<open>
  \<open>pc.createDataChannel\<close> followed by \<open>_setupDataChannel(dataChannel, file, true)\<close>: a new
  channel on the connection, bound to the file its \<open>onopen\<close> handler will send. It throws
  on a closed connection.
\<close>

definition createDataChannel :: "transfer \<Rightarrow> nat \<Rightarrow> jsfile \<Rightarrow> error + transfer" where
  "createDataChannel T a f =
     (if pc_closed (pc (heap T ! a)) then Inl InvalidStateError
      else Inr (mutate T a
                  (\<lambda>pd. pd\<lparr>pc := (pc pd)\<lparr>pc_dataChannels := pc_dataChannels (pc pd) @ [f]\<rparr>\<rparr>)))"

text \<open>The \<open>try\<close> block of \<open>sendFile\<close> after its first \<open>await\<close>; \<open>Some e\<close> is a throw.\<close>

definition sendFile_resume ::
  "negotiation \<Rightarrow> transfer \<Rightarrow> peerId \<Rightarrow> nat \<Rightarrow> jsfile \<Rightarrow> error option \<times> transfer"
where
  "sendFile_resume neg T targetId a f =
     (case createDataChannel T a f of
        Inl e \<Rightarrow> (Some e, T)
      | Inr T1 \<Rightarrow>
          (case createOffer neg of
             Inl e \<Rightarrow> (Some e, T1)
           | Inr offer \<Rightarrow>
               (case setLocalDescription neg of
                  Some e \<Rightarrow> (Some e, T1)
                | None \<Rightarrow>
                    (None,
                     callback T1
                       (EmitSignal targetId
                          (SigOffer offer (JStr (file_name f)) (JNum (int (file_size f)))
                             (JStr (file_type f))))))))"

definition sendFile_try ::
  "negotiation \<Rightarrow> transfer \<Rightarrow> peerId \<Rightarrow> jsfile \<Rightarrow> error option \<times> transfer"
where
  "sendFile_try neg T targetId f =
     (case getOrCreatePeerConnection neg T targetId True of
        (Inl e, T1) \<Rightarrow> (Some e, T1)
      | (Inr a, T1) \<Rightarrow> sendFile_resume neg T1 targetId a f)"

text \<open>
  The \<open>catch\<close> of \<open>sendFile\<close> and of \<open>_handleSignal\<close>: the error goes to
  \<open>this.callbacks.onError\<close>. \<open>caught\<close> is the state after the \<open>try\<close> statement: the
  callback has been invoked with the error. \<open>onError\<close> is what the caller-supplied
  callback does with the error it is given: \<open>None\<close> when it returns, \<open>Some e\<close> when it
  throws \<open>e\<close>. A throw inside the \<open>catch\<close> block rejects the promise of the method;
  otherwise the promise resolves.
\<close>

definition caught :: "error option \<times> transfer \<Rightarrow> transfer" where
  "caught r =
     (case r of
        (Some err, T) \<Rightarrow> callback T (OnError err)
      | (None, T) \<Rightarrow> T)"

definition catch_onError ::
  "(error \<Rightarrow> error option) \<Rightarrow> error option \<times> transfer \<Rightarrow> settled \<times> transfer"
where
  "catch_onError onError r =
     (case r of
        (Some err, T) \<Rightarrow>
          (case onError err of
             Some thrown \<Rightarrow> (Rejected thrown, caught r)
           | None \<Rightarrow> (Resolved, caught r))
      | (None, T) \<Rightarrow> (Resolved, caught r))"

definition sendFile ::
  "(error \<Rightarrow> error option) \<Rightarrow> negotiation \<Rightarrow> transfer \<Rightarrow> peerId \<Rightarrow> jsfile
     \<Rightarrow> settled \<times> transfer"
where
  "sendFile onError neg T targetId f = catch_onError onError (sendFile_try neg T targetId f)"

text \<open>The offer branch of \<open>_handleSignal\<close> after its first \<open>await\<close>.\<close>

definition offer_resume ::
  "negotiation \<Rightarrow> transfer \<Rightarrow> peerId \<Rightarrow> jsval \<Rightarrow> jsval \<Rightarrow> jsval \<Rightarrow> error option \<times> transfer"
where
  "offer_resume neg T from fileName fileSize fileType =
     (case map_of (peers T) from of
        None \<Rightarrow> (Some TypeError, T)
      | Some a \<Rightarrow>
          (let T1 = mutate T a
                      (\<lambda>pd. pd\<lparr>fileMetadata :=
                                 JObj [(''fileName'', fileName), (''fileSize'', fileSize),
                                       (''fileType'', fileType)]\<rparr>)
           in case setRemoteDescription neg of
                Some e \<Rightarrow> (Some e, T1)
              | None \<Rightarrow>
                  (case createAnswer neg of
                     Inl e \<Rightarrow> (Some e, T1)
                   | Inr answer \<Rightarrow>
                       (case setLocalDescription neg of
                          Some e \<Rightarrow> (Some e, T1)
                        | None \<Rightarrow> (None, callback T1 (EmitSignal from (SigAnswer answer)))))))"

definition handleSignal_try ::
  "negotiation \<Rightarrow> transfer \<Rightarrow> peerId \<Rightarrow> signal \<Rightarrow> error option \<times> transfer"
where
  "handleSignal_try neg T from data =
     (case data of
        SigOffer s fileName fileSize fileType \<Rightarrow>
          (case getOrCreatePeerConnection neg T from False of
             (Inl e, T1) \<Rightarrow> (Some e, T1)
           | (Inr a, T1) \<Rightarrow> offer_resume neg T1 from fileName fileSize fileType)
      | SigAnswer s \<Rightarrow>
          (case map_of (peers T) from of
             None \<Rightarrow> (None, T)
           | Some a \<Rightarrow> (setRemoteDescription neg, T))
      | SigIceCandidate c \<Rightarrow>
          (case map_of (peers T) from of
             None \<Rightarrow> (None, T)
           | Some a \<Rightarrow> (addIceCandidate neg, T))
      | SigOther \<Rightarrow> (None, T))"

definition handleSignal ::
  "(error \<Rightarrow> error option) \<Rightarrow> negotiation \<Rightarrow> transfer \<Rightarrow> peerId \<Rightarrow> signal
     \<Rightarrow> settled \<times> transfer"
where
  "handleSignal onError neg T from data = catch_onError onError (handleSignal_try neg T from data)"

text \<open>\<open>pc.onconnectionstatechange\<close> of a connection created for \<open>peerId\<close>.\<close>

definition onconnectionstatechange :: "transfer \<Rightarrow> peerId \<Rightarrow> connState \<Rightarrow> transfer" where
  "onconnectionstatechange T peerId st =
     (let T1 = callback T (OnConnectionStateChange peerId st)
      in if st = CS_disconnected \<or> st = CS_failed \<or> st = CS_closed
         then cleanupPeer T1 peerId else T1)"

text \<open>\<open>pc.ondatachannel\<close>: \<open>_setupDataChannel(event.channel, null, false, peerId)\<close>.\<close>

definition ondatachannel :: "transfer \<Rightarrow> peerId \<Rightarrow> transfer" where
  "ondatachannel T peerId = T\<lparr>receivers := receivers T @ [(peerId, map_of (peers T) peerId)]\<rparr>"

section \<open>Events\<close>

text \<open>\<open>pc.onicecandidate\<close> of a connection created for \<open>peerId\<close>.\<close>

definition onicecandidate :: "transfer \<Rightarrow> peerId \<Rightarrow> jsval \<Rightarrow> transfer" where
  "onicecandidate T peerId candidate =
     (if truthy candidate then callback T (EmitSignal peerId (SigIceCandidate candidate)) else T)"

text \<open>
  JavaScript runs each handler up to its next \<open>await\<close> without interruption. The events
  below are these uninterrupted pieces, so that a list of events is an interleaving of
  the methods: \<open>sendFile\<close> is \<open>SendFileCall\<close> then \<open>SendFileResume\<close> with the
  connection the call returned; an inbound offer is \<open>Signal\<close>, which runs
  \<open>_handleSignal\<close> up to its first \<open>await\<close>, then \<open>OfferResume\<close>. The other signals
  read no state after an \<open>await\<close>, so \<open>Signal\<close> runs them whole. A signal arrives only
  while the listener is attached. The state after a \<open>try\<close> statement is \<open>caught\<close>,
  whether or not the error callback throws.
\<close>

datatype event =
    SendFileCall negotiation peerId
  | SendFileResume negotiation peerId nat jsfile
  | Signal negotiation peerId signal
  | OfferResume negotiation peerId jsval jsval jsval
  | DataChannel peerId
  | Message nat frame
  | ConnectionStateChange peerId connState
  | IceCandidate peerId jsval
  | ChannelError error
  | Destroy

fun step :: "(string \<Rightarrow> jsval option) \<Rightarrow> transfer \<Rightarrow> event \<Rightarrow> transfer" where
  "step parse T (SendFileCall neg p) =
     (case getOrCreatePeerConnection neg T p True of
        (Inl e, T1) \<Rightarrow> callback T1 (OnError e)
      | (Inr a, T1) \<Rightarrow> T1)"
| "step parse T (SendFileResume neg p a f) =
     (if a < length (heap T) then caught (sendFile_resume neg T p a f) else T)"
| "step parse T (Signal neg p data) =
     (if listening T then
        (case data of
           SigOffer s fileName fileSize fileType \<Rightarrow>
             (case getOrCreatePeerConnection neg T p False of
                (Inl e, T1) \<Rightarrow> callback T1 (OnError e)
              | (Inr a, T1) \<Rightarrow> T1)
         | _ \<Rightarrow> caught (handleSignal_try neg T p data))
      else T)"
| "step parse T (OfferResume neg p fileName fileSize fileType) =
     caught (offer_resume neg T p fileName fileSize fileType)"
| "step parse T (DataChannel p) = ondatachannel T p"
| "step parse T (Message i data) =
     (if i < length (receivers T)
      then snd (onmessage parse T (fst (receivers T ! i)) (snd (receivers T ! i)) data)
      else T)"
| "step parse T (ConnectionStateChange p st) = onconnectionstatechange T p st"
| "step parse T (IceCandidate p c) = onicecandidate T p c"
| "step parse T (ChannelError e) = callback T (OnError e)"
| "step parse T Destroy = destroy T"

definition run :: "(string \<Rightarrow> jsval option) \<Rightarrow> transfer \<Rightarrow> event list \<Rightarrow> transfer" where
  "run parse T evs = foldl (step parse) T evs"

section \<open>Invariants\<close>

text \<open>
  \<open>counted\<close>: the byte count of a session equals the bytes of its buffered chunks.
  \<open>heap_ext h h'\<close>: from \<open>h\<close> to \<open>h'\<close> no object is lost, no byte count decreases,
  counted objects stay counted and new objects are counted. \<open>keeps g\<close>: the update \<open>g\<close>
  of one object respects this.
\<close>

definition counted :: "peerData \<Rightarrow> bool" where
  "counted pd \<longleftrightarrow> receivedBytes pd = sum_list (map length (receivedChunks pd))"

definition keeps :: "(peerData \<Rightarrow> peerData) \<Rightarrow> bool" where
  "keeps g \<longleftrightarrow> (\<forall>pd. receivedBytes pd \<le> receivedBytes (g pd) \<and> (counted pd \<longrightarrow> counted (g pd)))"

definition heap_ext :: "peerData list \<Rightarrow> peerData list \<Rightarrow> bool" where
  "heap_ext h h' \<longleftrightarrow>
     length h \<le> length h'
     \<and> (\<forall>a < length h. receivedBytes (h ! a) \<le> receivedBytes (h' ! a)
            \<and> (counted (h ! a) \<longrightarrow> counted (h' ! a)))
     \<and> (\<forall>a. length h \<le> a \<longrightarrow> a < length h' \<longrightarrow> counted (h' ! a))"

text \<open>
  \<open>registered_open\<close>: no identifier and no session is registered twice, and every
  registered session exists and has a connection that is not closed.
\<close>

definition registered_open :: "transfer \<Rightarrow> bool" where
  "registered_open T \<longleftrightarrow>
     distinct (map fst (peers T)) \<and> distinct (map snd (peers T))
     \<and> (\<forall>(p, a) \<in> set (peers T). a < length (heap T) \<and> \<not> pc_closed (pc (heap T ! a)))"

text \<open>
  The progress reports of a receiver that starts at \<open>n\<close> received bytes and is given the
  chunks in order.
\<close>

fun progress_reports :: "nat \<Rightarrow> jsval \<Rightarrow> bytes list \<Rightarrow> effect list" where
  "progress_reports n total_size [] = []"
| "progress_reports n total_size (c # cs) =
     OnProgress (n + length c) total_size # progress_reports (n + length c) total_size cs"

text \<open>
  The events that store metadata: the continuation of an inbound offer, and a textual
  frame that parses to an object whose \<open>type\<close> is \<open>metadata\<close>.
\<close>

definition sets_metadata :: "(string \<Rightarrow> jsval option) \<Rightarrow> event \<Rightarrow> bool" where
  "sets_metadata parse e =
     (case e of
        OfferResume neg p x y z \<Rightarrow> True
      | Message i (Text s) \<Rightarrow>
          (case parse s of
             Some m \<Rightarrow> get_prop m ''type'' = Inr (JStr ''metadata'')
           | None \<Rightarrow> False)
      | _ \<Rightarrow> False)"

section \<open>Sample inputs\<close>

text \<open>A transport that never drains and never closes; an open, empty channel.\<close>

definition frozen :: "nat \<Rightarrow> env_step" where
  "frozen k = \<lparr>drain = 0, closes = False\<rparr>"

definition closing_at :: "nat \<Rightarrow> nat \<Rightarrow> env_step" where
  "closing_at n k = \<lparr>drain = 0, closes = (k = n)\<rparr>"

definition open_channel :: channel where
  "open_channel = \<lparr>readyState = RS_open, bufferedAmount = 0\<rparr>"

definition five_bytes :: jsfile where
  "five_bytes = \<lparr>file_name = ''a.bin'', file_type = ''x/y'', file_bytes = [1, 2, 3, 4, 5]\<rparr>"

definition empty_file :: jsfile where
  "empty_file = \<lparr>file_name = ''e.txt'', file_type = ''text/plain'', file_bytes = []\<rparr>"

definition big_file :: jsfile where
  "big_file = \<lparr>file_name = ''big'', file_type = ''x/y'', file_bytes = replicate (12 * 16384) 0\<rparr>"

text \<open>A stand-in for \<open>JSON.stringify\<close> on the two control frames.\<close>

definition sample_stringify :: "jsval \<Rightarrow> string" where
  "sample_stringify j = (if j = end_msg then ''E'' else ''M'')"

text \<open>The sender's state after the first of the three chunks of \<open>five_bytes\<close>.\<close>

definition after_first_chunk :: sender where
  "after_first_chunk =
     \<lparr>chan = \<lparr>readyState = RS_open, bufferedAmount = 3\<rparr>, offset = 2,
      effects = [ChannelSend (Text ''M''), ChannelSend (Binary [1, 2]), OnProgress 2 (JNum 5)],
      tick = 1\<rparr>"

definition twenty_four_bytes :: jsfile where
  "twenty_four_bytes = \<lparr>file_name = ''t'', file_type = ''x/y'', file_bytes = replicate 24 7\<rparr>"

text \<open>A negotiator that accepts every call.\<close>

definition neg_ok :: negotiation where
  "neg_ok = \<lparr>construct = None, createOffer = Inr ''offer'', createAnswer = Inr ''answer'',
             setLocalDescription = None, setRemoteDescription = None, addIceCandidate = None\<rparr>"

text \<open>A stand-in for \<open>JSON.parse\<close>, the inverse of \<open>sample_stringify\<close> for the file \<open>f\<close>.\<close>

definition sample_parse :: "jsfile \<Rightarrow> string \<Rightarrow> jsval option" where
  "sample_parse f s =
     (if s = ''E'' then Some end_msg else if s = ''M'' then Some (metadata_msg f) else None)"

text \<open>The offer for \<open>f\<close> arrives from \<open>peer\<close>, then the data channel.\<close>

definition incoming :: "jsfile \<Rightarrow> event list" where
  "incoming f =
     [Signal neg_ok ''peer''
        (SigOffer ''offer'' (JStr (file_name f)) (JNum (int (file_size f))) (JStr (file_type f))),
      OfferResume neg_ok ''peer'' (JStr (file_name f)) (JNum (int (file_size f)))
        (JStr (file_type f)),
      DataChannel ''peer'']"

definition receiving :: "jsfile \<Rightarrow> transfer" where
  "receiving f = run (sample_parse f) P2PFileTransfer (incoming f)"

text \<open>Negotiators that fail, and further sample states.\<close>

definition neg_no_offer :: negotiation where
  "neg_no_offer = neg_ok\<lparr>createOffer := Inl (NegotiatorError ''no offer'')\<rparr>"

definition neg_no_connection :: negotiation where
  "neg_no_connection = neg_ok\<lparr>construct := Some (NegotiatorError ''no connection'')\<rparr>"

text \<open>An error callback that returns, as the default \<open>console.error\<close> does.\<close>

definition returning :: "error \<Rightarrow> error option" where
  "returning err = None"

definition sending :: transfer where
  "sending = snd (sendFile returning neg_ok P2PFileTransfer ''peer'' five_bytes)"

definition two_chunks :: "event list" where
  "two_chunks = incoming five_bytes @ [Message 0 (Text ''M''), Message 0 (Binary [1, 2])]"

text \<open>One whole \<open>sendFile\<close>, in its two pieces.\<close>

definition sent_once :: "event list" where
  "sent_once = [SendFileCall neg_ok ''peer'', SendFileResume neg_ok ''peer'' 0 five_bytes]"

section \<open>The chunk codec and the sender's loop\<close>

lemma sent_frames_append: "sent_frames (xs @ ys) = sent_frames xs @ sent_frames ys"
  by (induction xs rule: sent_frames.induct) simp_all

lemma env_pass_open: "\<not> closes e \<Longrightarrow> readyState (env_pass e ch) = readyState ch"
  by (simp add: env_pass_def)

lemma env_pass_frozen: "drain e = 0 \<Longrightarrow> bufferedAmount (env_pass e ch) = bufferedAmount ch"
  by (simp add: env_pass_def)

lemma length_slice: "length (slice b s (s + C)) = min C (length b - s)"
  by (simp add: slice_def)

lemma slice_drop: "slice b s (s + C) @ drop (s + length (slice b s (s + C))) b = drop s b"
proof -
  have a: "drop (s + min (length b - s) C) b = drop C (drop s b)"
    by (cases "C \<le> length b - s") (simp_all add: min_def add.commute)
  show ?thesis by (simp add: slice_def a del: drop_drop)
qed

lemma readLoop_open:
  assumes C: "0 < C" and live: "\<forall>k. \<not> closes (env k)"
  shows "readyState (chan s) = RS_open \<Longrightarrow> offset s \<le> file_size f \<Longrightarrow>
     \<exists>s' cs. readLoop C stringify env f s = Some (Inr s')
       \<and> sent_frames (effects s') = sent_frames (effects s) @ map Binary cs @ [Text (stringify end_msg)]
       \<and> effects s' = effects s
             @ backoff_schedule C env (file_size f) (tick s) (bufferedAmount (chan s)) (offset s) cs
             @ [ChannelSend (Text (stringify end_msg))]
       \<and> concat cs = drop (offset s) (file_bytes f)
       \<and> cs \<noteq> []
       \<and> (\<forall>c \<in> set cs. length c \<le> C)
       \<and> (\<forall>c \<in> set (butlast cs). length c = C)
       \<and> offset s' = file_size f
       \<and> readyState (chan s') = RS_open
       \<and> ((\<forall>k. drain (env k) = 0) \<longrightarrow>
            bufferedAmount (chan s') =
              bufferedAmount (chan s) + (file_size f - offset s) + length (stringify end_msg))"
proof (induction "file_size f - offset s" arbitrary: s rule: less_induct)
  case less
  define result where "result = slice (file_bytes f) (offset s) (offset s + C)"
  define ch where "ch = env_pass (env (tick s)) (chan s)"
  define ch1 where "ch1 = ch\<lparr>bufferedAmount := bufferedAmount ch + length result\<rparr>"
  define off where "off = offset s + length result"
  define fx where "fx = effects s @ [ChannelSend (Binary result), OnProgress off (JNum (int (file_size f)))]"
  have ch_open: "readyState ch = RS_open"
    using live less.prems(1) by (simp add: ch_def env_pass_open)
  have send1: "channel_send ch (Binary result) = Inr ch1"
    using ch_open by (simp add: channel_send_def ch1_def)
  have ch1_open: "readyState ch1 = RS_open"
    using ch_open by (simp add: ch1_def)
  have len: "length result = min C (file_size f - offset s)"
    by (simp add: result_def length_slice file_size_def)
  have glue: "result @ drop off (file_bytes f) = drop (offset s) (file_bytes f)"
    unfolding result_def off_def by (rule slice_drop)
  have fx_frames: "sent_frames fx = sent_frames (effects s) @ [Binary result]"
    by (simp add: fx_def sent_frames_append)
  show ?case
  proof (cases "off < file_size f")
    case True
    have lenC: "length result = C" using True len off_def by (simp add: min_def split: if_splits)
    define s2 where "s2 = (if bufferedAmount ch1 > C * 10
        then \<lparr>chan = env_pass (env (tick s + 1)) ch1, offset = off,
              effects = fx @ [SetTimeout 100], tick = tick s + 2\<rparr>
        else \<lparr>chan = ch1, offset = off, effects = fx, tick = tick s + 1\<rparr>)"
    have unfold: "readLoop C stringify env f s = readLoop C stringify env f s2"
      apply (subst readLoop.simps)
      using ch_open send1 True
      by (simp add: Let_def result_def[symmetric] ch_def[symmetric] off_def[symmetric] fx_def[symmetric] s2_def)
    have s2_open: "readyState (chan s2) = RS_open"
      using ch1_open live by (simp add: s2_def env_pass_open)
    have s2_off: "offset s2 = off" by (simp add: s2_def)
    have s2_frames: "sent_frames (effects s2) = sent_frames (effects s) @ [Binary result]"
      by (simp add: s2_def sent_frames_append fx_frames)
    have s2_buf: "(\<forall>k. drain (env k) = 0) \<Longrightarrow> bufferedAmount (chan s2) = bufferedAmount (chan s) + C"
      by (simp add: s2_def env_pass_frozen ch1_def ch_def lenC)
    have decr: "file_size f - offset s2 < file_size f - offset s"
      using True C lenC by (simp add: s2_off off_def)
    have s2_le: "offset s2 \<le> file_size f" using True s2_off by simp
    from less.hyps[OF decr s2_open s2_le]
    obtain s' cs where IH: "readLoop C stringify env f s2 = Some (Inr s')"
       "sent_frames (effects s') = sent_frames (effects s2) @ map Binary cs @ [Text (stringify end_msg)]"
       "concat cs = drop (offset s2) (file_bytes f)" "cs \<noteq> []"
       "\<forall>c \<in> set cs. length c \<le> C" "\<forall>c \<in> set (butlast cs). length c = C"
       "offset s' = file_size f" "readyState (chan s') = RS_open"
       "(\<forall>k. drain (env k) = 0) \<longrightarrow>
            bufferedAmount (chan s') =
              bufferedAmount (chan s2) + (file_size f - offset s2) + length (stringify end_msg)"
       and IHsched: "effects s' = effects s2
             @ backoff_schedule C env (file_size f) (tick s2) (bufferedAmount (chan s2)) (offset s2) cs
             @ [ChannelSend (Text (stringify end_msg))]"
      by blast
    have buf: "(\<forall>k. drain (env k) = 0) \<longrightarrow>
            bufferedAmount (chan s') =
              bufferedAmount (chan s) + (file_size f - offset s) + length (stringify end_msg)"
    proof
      assume fr: "\<forall>k. drain (env k) = 0"
      with IH(9) s2_buf have "bufferedAmount (chan s') =
          bufferedAmount (chan s) + C + (file_size f - off) + length (stringify end_msg)"
        by (simp add: s2_off)
      moreover have "C + (file_size f - off) = file_size f - offset s"
        using True lenC off_def by simp
      ultimately show "bufferedAmount (chan s') =
              bufferedAmount (chan s) + (file_size f - offset s) + length (stringify end_msg)"
        by simp
    qed
    have sched: "effects s' = effects s
             @ backoff_schedule C env (file_size f) (tick s) (bufferedAmount (chan s)) (offset s)
                 (result # cs)
             @ [ChannelSend (Text (stringify end_msg))]"
    proof (cases "bufferedAmount ch1 > C * 10")
      case True
      then have "backoff_schedule C env (file_size f) (tick s) (bufferedAmount (chan s)) (offset s)
                 (result # cs) =
          [ChannelSend (Binary result), OnProgress off (JNum (int (file_size f))), SetTimeout 100]
          @ backoff_schedule C env (file_size f) (tick s2) (bufferedAmount (chan s2)) (offset s2) cs"
        using IH(4)
        by (simp add: Let_def s2_def ch1_def ch_def env_pass_def off_def)
      moreover have "effects s2 = effects s @
          [ChannelSend (Binary result), OnProgress off (JNum (int (file_size f))), SetTimeout 100]"
        using True by (simp add: s2_def fx_def)
      ultimately show ?thesis using IHsched by simp
    next
      case False
      then have "backoff_schedule C env (file_size f) (tick s) (bufferedAmount (chan s)) (offset s)
                 (result # cs) =
          [ChannelSend (Binary result), OnProgress off (JNum (int (file_size f)))]
          @ backoff_schedule C env (file_size f) (tick s2) (bufferedAmount (chan s2)) (offset s2) cs"
        using IH(4)
        by (simp add: Let_def s2_def ch1_def ch_def env_pass_def off_def)
      moreover have "effects s2 = effects s @
          [ChannelSend (Binary result), OnProgress off (JNum (int (file_size f)))]"
        using False by (simp add: s2_def fx_def)
      ultimately show ?thesis using IHsched by simp
    qed
    have "readLoop C stringify env f s = Some (Inr s')" using unfold IH(1) by simp
    moreover have "sent_frames (effects s') =
        sent_frames (effects s) @ map Binary (result # cs) @ [Text (stringify end_msg)]"
      using IH(2) s2_frames by simp
    moreover have "concat (result # cs) = drop (offset s) (file_bytes f)"
      using IH(3) glue s2_off by simp
    moreover have "\<forall>c \<in> set (result # cs). length c \<le> C" using IH(5) lenC by simp
    moreover have "\<forall>c \<in> set (butlast (result # cs)). length c = C"
      using IH(4,6) lenC by simp
    ultimately show ?thesis using IH(7,8) buf sched by blast
  next
    case False
    have off_eq: "off = file_size f" using False len off_def less.prems(2) by (simp add: min_def split: if_splits)
    define ch2 where "ch2 = ch1\<lparr>bufferedAmount := bufferedAmount ch1 + length (stringify end_msg)\<rparr>"
    define s' where "s' = \<lparr>chan = ch2, offset = off,
         effects = fx @ [ChannelSend (Text (stringify end_msg))], tick = tick s + 1\<rparr>"
    have send2: "channel_send ch1 (Text (stringify end_msg)) = Inr ch2"
      using ch1_open by (simp add: channel_send_def ch2_def)
    have unfold: "readLoop C stringify env f s = Some (Inr s')"
      apply (subst readLoop.simps)
      using ch_open send1 send2 False
      by (simp add: Let_def result_def[symmetric] ch_def[symmetric] off_def[symmetric] fx_def[symmetric] s'_def)
    have "sent_frames (effects s') =
        sent_frames (effects s) @ map Binary [result] @ [Text (stringify end_msg)]"
      by (simp add: s'_def sent_frames_append fx_frames)
    moreover have "effects s' = effects s
             @ backoff_schedule C env (file_size f) (tick s) (bufferedAmount (chan s)) (offset s) [result]
             @ [ChannelSend (Text (stringify end_msg))]"
      by (simp add: s'_def fx_def Let_def off_def)
    moreover have "concat [result] = drop (offset s) (file_bytes f)"
      using glue off_eq by (simp add: file_size_def)
    moreover have "\<forall>c \<in> set [result]. length c \<le> C" using len by simp
    moreover have "\<forall>c \<in> set (butlast [result]). length c = C" by simp
    moreover have "offset s' = file_size f" by (simp add: s'_def off_eq)
    moreover have "readyState (chan s') = RS_open" using ch1_open by (simp add: s'_def ch2_def)
    moreover have "(\<forall>k. drain (env k) = 0) \<longrightarrow>
            bufferedAmount (chan s') =
              bufferedAmount (chan s) + (file_size f - offset s) + length (stringify end_msg)"
      using off_eq off_def by (auto simp: s'_def ch2_def ch1_def ch_def env_pass_frozen)
    ultimately show ?thesis using unfold by blast
  qed
qed

lemma payloads_append: "payloads (xs @ ys) = payloads xs @ payloads ys"
  by (induction xs rule: payloads.induct) simp_all

lemma payloads_Binary: "payloads (map Binary cs) = cs"
  by (induction cs) simp_all

lemma sendFileInChunks_open:
  assumes C: "0 < C" and live: "\<forall>k. \<not> closes (env k)" and op: "readyState ch = RS_open"
  shows "\<exists>s cs. sendFileInChunks C stringify env ch f = Some (Inr s)
       \<and> sent_frames (effects s) =
           Text (stringify (metadata_msg f)) # map Binary cs @ [Text (stringify end_msg)]
       \<and> effects s =
           ChannelSend (Text (stringify (metadata_msg f)))
           # backoff_schedule C env (file_size f) 0
               (bufferedAmount ch + length (stringify (metadata_msg f))) 0 cs
           @ [ChannelSend (Text (stringify end_msg))]
       \<and> concat cs = file_bytes f
       \<and> cs \<noteq> []
       \<and> (\<forall>c \<in> set cs. length c \<le> C)
       \<and> (\<forall>c \<in> set (butlast cs). length c = C)
       \<and> ((\<forall>k. drain (env k) = 0) \<longrightarrow>
            bufferedAmount (chan s) =
              bufferedAmount ch + length (stringify (metadata_msg f)) + file_size f
                + length (stringify end_msg))"
proof -
  define ch1 where "ch1 = ch\<lparr>bufferedAmount := bufferedAmount ch + length (stringify (metadata_msg f))\<rparr>"
  define s0 where "s0 = \<lparr>chan = ch1, offset = 0,
             effects = [ChannelSend (Text (stringify (metadata_msg f)))], tick = 0\<rparr>"
  have start: "sendFileInChunks C stringify env ch f = readLoop C stringify env f s0"
    using op by (simp add: sendFileInChunks_def channel_send_def ch1_def s0_def)
  have "readyState (chan s0) = RS_open" using op by (simp add: s0_def ch1_def)
  moreover have "offset s0 \<le> file_size f" by (simp add: s0_def)
  ultimately obtain s' cs where R: "readLoop C stringify env f s0 = Some (Inr s')"
       "sent_frames (effects s') = sent_frames (effects s0) @ map Binary cs @ [Text (stringify end_msg)]"
       "effects s' = effects s0
             @ backoff_schedule C env (file_size f) (tick s0) (bufferedAmount (chan s0)) (offset s0) cs
             @ [ChannelSend (Text (stringify end_msg))]"
       "concat cs = drop (offset s0) (file_bytes f)" "cs \<noteq> []"
       "\<forall>c \<in> set cs. length c \<le> C" "\<forall>c \<in> set (butlast cs). length c = C"
       "(\<forall>k. drain (env k) = 0) \<longrightarrow>
            bufferedAmount (chan s') =
              bufferedAmount (chan s0) + (file_size f - offset s0) + length (stringify end_msg)"
    using readLoop_open[OF C live, of s0 f stringify] by blast
  have "sent_frames (effects s') =
           Text (stringify (metadata_msg f)) # map Binary cs @ [Text (stringify end_msg)]"
    using R(2) by (simp add: s0_def)
  moreover have "effects s' =
           ChannelSend (Text (stringify (metadata_msg f)))
           # backoff_schedule C env (file_size f) 0
               (bufferedAmount ch + length (stringify (metadata_msg f))) 0 cs
           @ [ChannelSend (Text (stringify end_msg))]"
    using R(3) by (simp add: s0_def ch1_def)
  moreover have "concat cs = file_bytes f" using R(4) by (simp add: s0_def)
  moreover have "(\<forall>k. drain (env k) = 0) \<longrightarrow>
            bufferedAmount (chan s') =
              bufferedAmount ch + length (stringify (metadata_msg f)) + file_size f
                + length (stringify end_msg)"
    using R(8) by (simp add: s0_def ch1_def)
  ultimately show ?thesis using start R(1,5,6,7) by auto
qed

text \<open>
  Claim C10. When the channel is not open at the time a read completes, the loop ends
  there: it returns with the effects it had, so this round sends no chunk and no end
  frame, reports no progress and no error, and schedules no further read.
\<close>

theorem sender_halts_when_not_open:
  assumes "readyState (env_pass (env (tick s)) (chan s)) \<noteq> RS_open"
  shows "\<exists>s'. readLoop C stringify env f s = Some (Inr s')
           \<and> effects s' = effects s \<and> offset s' = offset s
           \<and> readyState (chan s') \<noteq> RS_open"
  using assms by (subst readLoop.simps) (simp add: Let_def)

theorem sender_halts_when_not_open_witness:
  "readyState (env_pass (closing_at 1 (tick after_first_chunk)) (chan after_first_chunk)) \<noteq> RS_open
   \<and> (\<exists>s'. readLoop 2 sample_stringify (closing_at 1) five_bytes after_first_chunk = Some (Inr s')
          \<and> effects s' =
              [ChannelSend (Text ''M''), ChannelSend (Binary [1, 2]), OnProgress 2 (JNum 5)]
          \<and> offset s' = 2)"
proof -
  have h: "readyState (env_pass (closing_at 1 (tick after_first_chunk)) (chan after_first_chunk))
             \<noteq> RS_open"
    by (simp add: after_first_chunk_def env_pass_def closing_at_def)
  from sender_halts_when_not_open[where env = "closing_at 1" and s = after_first_chunk
        and C = 2 and stringify = sample_stringify and f = five_bytes] h
  obtain s' where "readLoop 2 sample_stringify (closing_at 1) five_bytes after_first_chunk
        = Some (Inr s')"
      "effects s' = effects after_first_chunk" "offset s' = offset after_first_chunk"
    by blast
  then have "readLoop 2 sample_stringify (closing_at 1) five_bytes after_first_chunk
        = Some (Inr s')
      \<and> effects s' =
              [ChannelSend (Text ''M''), ChannelSend (Binary [1, 2]), OnProgress 2 (JNum 5)]
      \<and> offset s' = 2"
    by (simp add: after_first_chunk_def)
  then show ?thesis using h by blast
qed

text \<open>
  The whole run on \<open>five_bytes\<close> with chunk size 2, when the channel closes during the
  second read: one chunk, one progress report, no end frame.
\<close>

lemma sender_run_closed_during_second_read:
  "sendFileInChunks 2 sample_stringify (closing_at 1) open_channel five_bytes =
     Some (Inr \<lparr>chan = \<lparr>readyState = RS_closed, bufferedAmount = 3\<rparr>, offset = 2,
                effects = [ChannelSend (Text ''M''), ChannelSend (Binary [1, 2]),
                           OnProgress 2 (JNum 5)],
                tick = 2\<rparr>)"
  by code_simp

text \<open>Every timer the loop sets is the 100 ms back-off, whatever the transport does.\<close>

lemma readLoop_timers_aux:
  assumes run: "readLoop C st env f s = Some r"
  shows "\<forall>s' d. r = Inr s' \<longrightarrow> SetTimeout d \<in> set (effects s') \<longrightarrow>
        SetTimeout d \<in> set (effects s) \<or> d = 100"
proof (rule readLoop.raw_induct[where P = "\<lambda>C st env f s r. \<forall>s' d. r = Inr s' \<longrightarrow>
        SetTimeout d \<in> set (effects s') \<longrightarrow> SetTimeout d \<in> set (effects s) \<or> d = 100", OF _ run])
  fix loop :: "nat \<Rightarrow> (jsval \<Rightarrow> string) \<Rightarrow> (nat \<Rightarrow> env_step) \<Rightarrow> jsfile \<Rightarrow> sender
                \<Rightarrow> (error + sender) option"
    and C :: nat and st :: "jsval \<Rightarrow> string" and env :: "nat \<Rightarrow> env_step"
    and f :: jsfile and s :: sender and r :: "error + sender"
  assume IH: "\<And>C st env f s r. loop C st env f s = Some r \<Longrightarrow>
       \<forall>s' d. r = Inr s' \<longrightarrow> SetTimeout d \<in> set (effects s') \<longrightarrow>
          SetTimeout d \<in> set (effects s) \<or> d = 100"
  assume body: "(let result = slice (file_bytes f) (offset s) (offset s + C);
          ch = env_pass (env (tick s)) (chan s)
      in if readyState ch = RS_open then
           (case channel_send ch (Binary result) of
              Inl e \<Rightarrow> Some (Inl e)
            | Inr ch1 \<Rightarrow>
               (let off = offset s + length result;
                    fx = effects s @ [ChannelSend (Binary result),
                                      OnProgress off (JNum (int (file_size f)))]
                in if off < file_size f then
                     (if bufferedAmount ch1 > C * 10
                      then loop C st env f
                             \<lparr>chan = env_pass (env (tick s + 1)) ch1, offset = off,
                              effects = fx @ [SetTimeout 100], tick = tick s + 2\<rparr>
                      else loop C st env f
                             \<lparr>chan = ch1, offset = off, effects = fx, tick = tick s + 1\<rparr>)
                   else
                     (case channel_send ch1 (Text (st end_msg)) of
                        Inl e \<Rightarrow> Some (Inl e)
                      | Inr ch2 \<Rightarrow>
                          Some (Inr \<lparr>chan = ch2, offset = off,
                                     effects = fx @ [ChannelSend (Text (st end_msg))],
                                     tick = tick s + 1\<rparr>))))
         else Some (Inr \<lparr>chan = ch, offset = offset s, effects = effects s, tick = tick s + 1\<rparr>))
       = Some r"
  show "\<forall>s' d. r = Inr s' \<longrightarrow> SetTimeout d \<in> set (effects s') \<longrightarrow>
          SetTimeout d \<in> set (effects s) \<or> d = 100"
  proof (intro allI impI)
    fix s' d
    assume r: "r = Inr s'" and d: "SetTimeout d \<in> set (effects s')"
    from body r d show "SetTimeout d \<in> set (effects s) \<or> d = 100"
      by (auto simp: Let_def channel_send_def split: if_splits dest!: IH)
  qed
qed

text \<open>
  Claim C2 (as amended). On a channel that stays open the loop returns, every byte of
  the file is queued, and what the sender does is exactly the back-off schedule: after a
  chunk is queued with more of the file left, a queue above ten chunk sizes delays the
  next read by 100 ms, and the chunk read then is queued without a second test. So the
  queue is not bounded: with a transport that never drains, \<open>bufferedAmount\<close> ends at
  its first value plus the lengths of the metadata frame, of the whole file and of the
  end frame.
\<close>

theorem flow_control_is_a_delay:
  assumes "0 < C" and "\<forall>k. \<not> closes (env k)" and "readyState ch = RS_open"
  shows "\<exists>s. sendFileInChunks C stringify env ch f = Some (Inr s)
       \<and> concat (sent_chunks (effects s)) = file_bytes f
       \<and> effects s =
           ChannelSend (Text (stringify (metadata_msg f)))
           # backoff_schedule C env (file_size f) 0
               (bufferedAmount ch + length (stringify (metadata_msg f))) 0
               (sent_chunks (effects s))
           @ [ChannelSend (Text (stringify end_msg))]
       \<and> ((\<forall>k. drain (env k) = 0) \<longrightarrow>
            bufferedAmount (chan s) =
              bufferedAmount ch + length (stringify (metadata_msg f)) + file_size f
                + length (stringify end_msg))"
proof -
  obtain s cs where R: "sendFileInChunks C stringify env ch f = Some (Inr s)"
      "sent_frames (effects s) =
           Text (stringify (metadata_msg f)) # map Binary cs @ [Text (stringify end_msg)]"
      "effects s =
           ChannelSend (Text (stringify (metadata_msg f)))
           # backoff_schedule C env (file_size f) 0
               (bufferedAmount ch + length (stringify (metadata_msg f))) 0 cs
           @ [ChannelSend (Text (stringify end_msg))]"
      "concat cs = file_bytes f"
      "(\<forall>k. drain (env k) = 0) \<longrightarrow>
            bufferedAmount (chan s) =
              bufferedAmount ch + length (stringify (metadata_msg f)) + file_size f
                + length (stringify end_msg)"
    using sendFileInChunks_open[OF assms, of stringify f] by blast
  have chunks: "sent_chunks (effects s) = cs"
    by (simp add: sent_chunks_def R(2) payloads_append payloads_Binary)
  show ?thesis
    using R(1) R(3) R(4) R(5) unfolding chunks[symmetric] by blast
qed

theorem flow_control_is_a_delay_witness:
  "0 < (2::nat) \<and> (\<forall>k. \<not> closes (frozen k)) \<and> readyState open_channel = RS_open
   \<and> (\<forall>k. drain (frozen k) = 0)
   \<and> (\<exists>s. sendFileInChunks 2 sample_stringify frozen open_channel twenty_four_bytes = Some (Inr s)
        \<and> bufferedAmount (chan s) = 26
        \<and> sent_chunks (effects s) = replicate 12 [7, 7]
        \<and> effects s =
            [ChannelSend (Text ''M''), ChannelSend (Binary [7, 7]),
             OnProgress 2 (JNum 24), ChannelSend (Binary [7, 7]),
             OnProgress 4 (JNum 24), ChannelSend (Binary [7, 7]),
             OnProgress 6 (JNum 24), ChannelSend (Binary [7, 7]),
             OnProgress 8 (JNum 24), ChannelSend (Binary [7, 7]),
             OnProgress 10 (JNum 24), ChannelSend (Binary [7, 7]),
             OnProgress 12 (JNum 24), ChannelSend (Binary [7, 7]),
             OnProgress 14 (JNum 24), ChannelSend (Binary [7, 7]),
             OnProgress 16 (JNum 24), ChannelSend (Binary [7, 7]),
             OnProgress 18 (JNum 24), ChannelSend (Binary [7, 7]),
             OnProgress 20 (JNum 24), SetTimeout 100,
             ChannelSend (Binary [7, 7]), OnProgress 22 (JNum 24),
             SetTimeout 100, ChannelSend (Binary [7, 7]),
             OnProgress 24 (JNum 24), ChannelSend (Text ''E'')])"
proof -
  have h: "0 < (2::nat)" "\<forall>k. \<not> closes (frozen k)" "readyState open_channel = RS_open"
    by (simp_all add: frozen_def open_channel_def)
  have fr: "\<forall>k. drain (frozen k) = 0" by (simp add: frozen_def)
  from flow_control_is_a_delay[OF h, of sample_stringify twenty_four_bytes] fr
  obtain s where s:
    "sendFileInChunks 2 sample_stringify frozen open_channel twenty_four_bytes = Some (Inr s)"
    "effects s =
           ChannelSend (Text (sample_stringify (metadata_msg twenty_four_bytes)))
           # backoff_schedule 2 frozen (file_size twenty_four_bytes) 0
               (bufferedAmount open_channel
                  + length (sample_stringify (metadata_msg twenty_four_bytes))) 0
               (sent_chunks (effects s))
           @ [ChannelSend (Text (sample_stringify end_msg))]"
    "bufferedAmount (chan s) =
       bufferedAmount open_channel + length (sample_stringify (metadata_msg twenty_four_bytes))
         + file_size twenty_four_bytes + length (sample_stringify end_msg)"
    by blast
  have run: "sendFileInChunks 2 sample_stringify frozen open_channel twenty_four_bytes =
    Some (Inr \<lparr>chan = \<lparr>readyState = RS_open, bufferedAmount = 26\<rparr>, offset = 24,
          effects =
            [ChannelSend (Text ''M''), ChannelSend (Binary [7, 7]),
             OnProgress 2 (JNum 24), ChannelSend (Binary [7, 7]),
             OnProgress 4 (JNum 24), ChannelSend (Binary [7, 7]),
             OnProgress 6 (JNum 24), ChannelSend (Binary [7, 7]),
             OnProgress 8 (JNum 24), ChannelSend (Binary [7, 7]),
             OnProgress 10 (JNum 24), ChannelSend (Binary [7, 7]),
             OnProgress 12 (JNum 24), ChannelSend (Binary [7, 7]),
             OnProgress 14 (JNum 24), ChannelSend (Binary [7, 7]),
             OnProgress 16 (JNum 24), ChannelSend (Binary [7, 7]),
             OnProgress 18 (JNum 24), ChannelSend (Binary [7, 7]),
             OnProgress 20 (JNum 24), SetTimeout 100,
             ChannelSend (Binary [7, 7]), OnProgress 22 (JNum 24),
             SetTimeout 100, ChannelSend (Binary [7, 7]),
             OnProgress 24 (JNum 24), ChannelSend (Text ''E'')],
          tick = 14\<rparr>)"
    by code_simp
  from s(1) run have v: "s = \<lparr>chan = \<lparr>readyState = RS_open, bufferedAmount = 26\<rparr>, offset = 24,
          effects =
            [ChannelSend (Text ''M''), ChannelSend (Binary [7, 7]),
             OnProgress 2 (JNum 24), ChannelSend (Binary [7, 7]),
             OnProgress 4 (JNum 24), ChannelSend (Binary [7, 7]),
             OnProgress 6 (JNum 24), ChannelSend (Binary [7, 7]),
             OnProgress 8 (JNum 24), ChannelSend (Binary [7, 7]),
             OnProgress 10 (JNum 24), ChannelSend (Binary [7, 7]),
             OnProgress 12 (JNum 24), ChannelSend (Binary [7, 7]),
             OnProgress 14 (JNum 24), ChannelSend (Binary [7, 7]),
             OnProgress 16 (JNum 24), ChannelSend (Binary [7, 7]),
             OnProgress 18 (JNum 24), ChannelSend (Binary [7, 7]),
             OnProgress 20 (JNum 24), SetTimeout 100,
             ChannelSend (Binary [7, 7]), OnProgress 22 (JNum 24),
             SetTimeout 100, ChannelSend (Binary [7, 7]),
             OnProgress 24 (JNum 24), ChannelSend (Text ''E'')],
          tick = 14\<rparr>"
    by simp
  have "sent_chunks (effects s) = replicate 12 [7, 7]"
    unfolding v by (simp add: sent_chunks_def numeral_eq_Suc)
  moreover have "bufferedAmount (chan s) = 26" unfolding v by simp
  ultimately show ?thesis using s(1) h fr v by auto
qed

text \<open>
  The bound of claim C2 fails: with the chunk size 16384 and a file of twelve chunks,
  a transport that never drains ends with more than eleven chunk sizes queued.
\<close>

theorem flow_control_bound_counterexample:
  "\<exists>s. sendFileInChunks 16384 sample_stringify frozen open_channel big_file = Some (Inr s)
       \<and> 10 * 16384 + 16384 < bufferedAmount (chan s)"
proof -
  have h: "0 < (16384::nat)" "\<forall>k. \<not> closes (frozen k)" "readyState open_channel = RS_open"
    by (simp_all add: frozen_def open_channel_def)
  have fr: "\<forall>k. drain (frozen k) = 0" by (simp add: frozen_def)
  obtain s where R: "sendFileInChunks 16384 sample_stringify frozen open_channel big_file = Some (Inr s)"
    "bufferedAmount (chan s) =
              bufferedAmount open_channel + length (sample_stringify (metadata_msg big_file))
                + file_size big_file + length (sample_stringify end_msg)"
    using sendFileInChunks_open[OF h, of sample_stringify big_file] fr by blast
  have "file_size big_file = 196608" by (simp add: file_size_def big_file_def)
  with R show ?thesis by auto
qed

section \<open>The registry\<close>

lemma callback_fields [simp]:
  "peers (callback T e) = peers T" "heap (callback T e) = heap T"
  "receivers (callback T e) = receivers T" "log (callback T e) = log T @ [e]"
  "listening (callback T e) = listening T" "chunkSize (callback T e) = chunkSize T"
  by (simp_all add: callback_def)

lemma mutate_fields [simp]:
  "peers (mutate T a g) = peers T" "heap (mutate T a g) = (heap T)[a := g (heap T ! a)]"
  "receivers (mutate T a g) = receivers T" "log (mutate T a g) = log T"
  "listening (mutate T a g) = listening T" "chunkSize (mutate T a g) = chunkSize T"
  by (simp_all add: mutate_def)

lemma caught_eq:
  "caught r = (case fst r of Some e \<Rightarrow> callback (snd r) (OnError e) | None \<Rightarrow> snd r)"
  by (cases r) (simp add: caught_def split: option.splits)

lemma snd_catch_onError [simp]: "snd (catch_onError onError r) = caught r"
  by (cases r) (simp add: catch_onError_def split: option.splits)

lemma update_fresh: "k \<notin> fst ` set al \<Longrightarrow> AList.update k v al = al @ [(k, v)]"
  by (induction al) auto

lemma map_of_None_keys: "map_of al k = None \<Longrightarrow> k \<notin> fst ` set al"
  by (simp add: map_of_eq_None_iff)

lemma peers_getOrCreate:
  "peers (snd (getOrCreatePeerConnection neg T p r)) =
     (case map_of (peers T) p of
        Some a \<Rightarrow> peers T
      | None \<Rightarrow> (case construct neg of Some e \<Rightarrow> peers T
                  | None \<Rightarrow> peers T @ [(p, length (heap T))]))"
  by (simp add: getOrCreatePeerConnection_def update_fresh map_of_None_keys split: option.splits)

lemma peers_cleanupPeer: "peers (cleanupPeer T p) = AList.delete p (peers T)"
  by (simp add: cleanupPeer_def map_of_None_keys split: option.splits)

lemma peers_fold_cleanup:
  "peers (fold (\<lambda>p T'. cleanupPeer T' p) ps T) = fold AList.delete ps (peers T)"
  by (induction ps arbitrary: T) (simp_all add: peers_cleanupPeer)

lemma distinct_fold_delete:
  "distinct (map fst al) \<Longrightarrow> distinct (map fst (fold AList.delete ps al))"
  by (induction ps arbitrary: al) (simp_all add: distinct_delete)

lemma peers_assembleFile:
  "peers (assembleFile T p) = peers T \<or> peers (assembleFile T p) = AList.delete p (peers T)"
  by (simp add: assembleFile_def Let_def peers_cleanupPeer split: option.splits)

lemma peers_onmessage:
  "peers (snd (onmessage parse T p c d)) = peers T
   \<or> peers (snd (onmessage parse T p c d)) = AList.delete p (peers T)"
  using peers_assembleFile[of T p]
  by (auto simp: onmessage_def Let_def split: frame.splits option.splits sum.splits)

lemma peers_createDataChannel:
  "createDataChannel T a f = Inr T' \<Longrightarrow> peers T' = peers T"
  by (auto simp: createDataChannel_def split: if_splits)

lemma peers_sendFile_resume [simp]: "peers (snd (sendFile_resume neg T p a f)) = peers T"
  by (auto simp: sendFile_resume_def dest: peers_createDataChannel split: sum.splits option.splits)

lemma peers_offer_resume [simp]: "peers (snd (offer_resume neg T p x y z)) = peers T"
  by (simp add: offer_resume_def Let_def split: sum.splits option.splits)

lemma peers_handleSignal_try:
  "peers (snd (handleSignal_try neg T p d)) = peers (snd (getOrCreatePeerConnection neg T p False))
   \<or> peers (snd (handleSignal_try neg T p d)) = peers T"
  by (cases d) (auto simp: handleSignal_try_def split: prod.splits sum.splits option.splits)

lemma peers_caught [simp]: "peers (caught r) = peers (snd r)"
  by (simp add: caught_eq split: option.splits)

lemma distinct_getOrCreate:
  "distinct (map fst (peers T)) \<Longrightarrow>
   distinct (map fst (peers (snd (getOrCreatePeerConnection neg T p r))))"
  by (auto simp: peers_getOrCreate map_of_None_keys split: option.splits)

lemma step_distinct:
  assumes "distinct (map fst (peers T))"
  shows "distinct (map fst (peers (step parse T e)))"
proof (cases e)
  case (SendFileCall neg p)
  with distinct_getOrCreate[OF assms, of neg p True] show ?thesis
    by (auto split: prod.splits sum.splits)
next
  case (SendFileResume neg p a f)
  with assms show ?thesis by simp
next
  case (Signal neg p d)
  show ?thesis
  proof (cases d)
    case (SigOffer s x y z)
    with Signal distinct_getOrCreate[OF assms, of neg p False] assms show ?thesis
      by (auto split: prod.splits sum.splits)
  next
    case (SigAnswer s)
    with Signal assms show ?thesis by (simp add: handleSignal_try_def caught_eq split: option.splits)
  next
    case (SigIceCandidate c)
    with Signal assms show ?thesis by (simp add: handleSignal_try_def caught_eq split: option.splits)
  next
    case SigOther
    with Signal assms show ?thesis by (simp add: handleSignal_try_def caught_eq)
  qed
next
  case (OfferResume neg p x y z)
  with assms show ?thesis by simp
next
  case (DataChannel p)
  with assms show ?thesis by (simp add: ondatachannel_def)
next
  case (Message i d)
  with assms peers_onmessage[of parse T "fst (receivers T ! i)" "snd (receivers T ! i)" d]
  show ?thesis by (auto simp: distinct_delete)
next
  case (ConnectionStateChange p st)
  with assms show ?thesis
    by (simp add: onconnectionstatechange_def Let_def peers_cleanupPeer distinct_delete)
next
  case (IceCandidate p c)
  with assms show ?thesis by (simp add: onicecandidate_def)
next
  case (ChannelError e)
  with assms show ?thesis by simp
next
  case Destroy
  with assms show ?thesis by (simp add: destroy_def peers_fold_cleanup distinct_fold_delete)
qed

lemma run_distinct:
  "distinct (map fst (peers T)) \<Longrightarrow> distinct (map fst (peers (run parse T evs)))"
  unfolding run_def by (induction evs arbitrary: T) (simp_all add: step_distinct)

lemma run_Nil [simp]: "run parse T [] = T" by (simp add: run_def)
lemma run_Cons [simp]: "run parse T (e # evs) = run parse (step parse T e) evs" by (simp add: run_def)
lemma run_snoc: "run parse T (evs @ [e]) = step parse (run parse T evs) e" by (simp add: run_def)

lemma keys_at_most_once:
  "distinct (map fst al) \<Longrightarrow> length (filter (\<lambda>e. fst e = k) al) \<le> 1"
  by (induction al) (auto simp: filter_empty_conv image_iff)

text \<open>
  Claim C7. In every state the coordinator reaches from its construction, by any
  interleaving of the uninterrupted pieces of \<open>sendFile\<close>, of inbound signals, of channel
  messages, of connection state changes and of \<open>destroy\<close>, no peer identifier has two
  entries in the registry. \<open>_getOrCreatePeerConnection\<close> appends an entry exactly when
  the identifier has none (and the connection can be constructed); otherwise it leaves
  the registry as it is.
\<close>

theorem at_most_one_session:
  "distinct (map fst (peers (run parse P2PFileTransfer evs)))
   \<and> length (filter (\<lambda>e. fst e = p) (peers (run parse P2PFileTransfer evs))) \<le> 1
   \<and> peers (snd (getOrCreatePeerConnection neg T p role)) =
       (if p \<in> fst ` set (peers T) \<or> construct neg \<noteq> None then peers T
        else peers T @ [(p, length (heap T))])"
proof -
  have d: "distinct (map fst (peers (run parse P2PFileTransfer evs)))"
    by (rule run_distinct) (simp add: P2PFileTransfer_def)
  have "peers (snd (getOrCreatePeerConnection neg T p role)) =
       (if p \<in> fst ` set (peers T) \<or> construct neg \<noteq> None then peers T
        else peers T @ [(p, length (heap T))])"
  proof -
    have "p \<in> fst ` set (peers T) \<longleftrightarrow> map_of (peers T) p \<noteq> None"
      by (simp add: map_of_eq_None_iff)
    then show ?thesis by (auto simp: peers_getOrCreate split: option.splits)
  qed
  with d keys_at_most_once[OF d, of p] show ?thesis by blast
qed

section \<open>The receiver's byte count\<close>

lemma heap_ext_refl [simp]: "heap_ext h h"
  by (simp add: heap_ext_def)

lemma heap_ext_trans:
  assumes 12: "heap_ext h1 h2" and 23: "heap_ext h2 h3"
  shows "heap_ext h1 h3"
proof -
  have len: "length h1 \<le> length h2" "length h2 \<le> length h3"
    using 12 23 by (simp_all add: heap_ext_def)
  have old: "receivedBytes (h1 ! a) \<le> receivedBytes (h3 ! a)
      \<and> (counted (h1 ! a) \<longrightarrow> counted (h3 ! a))" if "a < length h1" for a
  proof -
    from that len have a2: "a < length h2" by simp
    from 12 that have "receivedBytes (h1 ! a) \<le> receivedBytes (h2 ! a)"
        "counted (h1 ! a) \<longrightarrow> counted (h2 ! a)"
      by (simp_all add: heap_ext_def)
    moreover from 23 a2 have "receivedBytes (h2 ! a) \<le> receivedBytes (h3 ! a)"
        "counted (h2 ! a) \<longrightarrow> counted (h3 ! a)"
      by (simp_all add: heap_ext_def)
    ultimately show ?thesis by auto
  qed
  have new: "counted (h3 ! a)" if "length h1 \<le> a" "a < length h3" for a
  proof (cases "a < length h2")
    case True
    with 12 that have "counted (h2 ! a)" by (simp add: heap_ext_def)
    with 23 True show ?thesis by (simp add: heap_ext_def)
  next
    case False
    with 23 that show ?thesis by (simp add: heap_ext_def)
  qed
  from len old new show ?thesis by (simp add: heap_ext_def)
qed

lemma heap_ext_update:
  assumes "keeps g"
  shows "heap_ext h (h[a := g (h ! a)])"
proof -
  have "receivedBytes (h ! b) \<le> receivedBytes (h[a := g (h ! a)] ! b)
      \<and> (counted (h ! b) \<longrightarrow> counted (h[a := g (h ! a)] ! b))" if "b < length h" for b
  proof (cases "b = a")
    case True
    with that assms show ?thesis by (simp add: keeps_def)
  next
    case False
    then show ?thesis by simp
  qed
  then show ?thesis by (simp add: heap_ext_def)
qed

lemma heap_ext_append: "counted pd \<Longrightarrow> heap_ext h (h @ [pd])"
  by (auto simp: heap_ext_def nth_append less_Suc_eq_le)

lemma counted_new [simp]: "counted (new_peerData r)"
  by (simp add: counted_def new_peerData_def)

lemma keeps_pc [simp]: "keeps (\<lambda>pd. pd\<lparr>pc := x pd\<rparr>)"
  by (simp add: keeps_def counted_def)

lemma keeps_metadata [simp]: "keeps (\<lambda>pd. pd\<lparr>fileMetadata := m\<rparr>)"
  by (simp add: keeps_def counted_def)

lemma keeps_chunk [simp]:
  "keeps (\<lambda>pd. pd\<lparr>receivedChunks := receivedChunks pd @ [c],
                   receivedBytes := receivedBytes pd + length c\<rparr>)"
  by (simp add: keeps_def counted_def)

lemma ext_chunk:
  "heap_ext h (h[a := (h ! a)\<lparr>receivedChunks := receivedChunks (h ! a) @ [c],
                                receivedBytes := receivedBytes (h ! a) + length c\<rparr>])"
  using heap_ext_update[OF keeps_chunk, of h a c] by simp

lemma ext_metadata: "heap_ext h (h[a := (h ! a)\<lparr>fileMetadata := m\<rparr>])"
  using heap_ext_update[OF keeps_metadata, of h a m] by simp

lemma ext_pc: "heap_ext h (h[a := (h ! a)\<lparr>pc := x\<rparr>])"
  using heap_ext_update[OF keeps_pc, of h a "\<lambda>pd. x"] by simp

lemma ext_getOrCreate: "heap_ext (heap T) (heap (snd (getOrCreatePeerConnection neg T p r)))"
  by (simp add: getOrCreatePeerConnection_def heap_ext_append split: option.splits)

lemma ext_cleanupPeer: "heap_ext (heap T) (heap (cleanupPeer T p))"
  by (simp add: cleanupPeer_def ext_pc split: option.splits)

lemma ext_fold_cleanup: "heap_ext (heap T) (heap (fold (\<lambda>p T'. cleanupPeer T' p) ps T))"
proof (induction ps arbitrary: T)
  case Nil
  show ?case by simp
next
  case (Cons p ps)
  from heap_ext_trans[OF ext_cleanupPeer[of T p] Cons.IH[of "cleanupPeer T p"]]
  show ?case by simp
qed

lemma ext_assembleFile: "heap_ext (heap T) (heap (assembleFile T p))"
proof -
  have "heap_ext (heap T) (heap (cleanupPeer (callback T e) p))" for e
    using ext_cleanupPeer[of "callback T e" p] by simp
  then show ?thesis by (simp add: assembleFile_def Let_def split: option.splits)
qed

lemma ext_onmessage: "heap_ext (heap T) (heap (snd (onmessage parse T p c d)))"
  by (auto simp: onmessage_def Let_def ext_chunk ext_metadata ext_assembleFile
      split: frame.splits option.splits sum.splits)

lemma ext_sendFile_resume: "heap_ext (heap T) (heap (snd (sendFile_resume neg T p a f)))"
  by (auto simp: sendFile_resume_def createDataChannel_def ext_pc
      split: sum.splits option.splits if_splits)

lemma ext_offer_resume: "heap_ext (heap T) (heap (snd (offer_resume neg T p x y z)))"
  by (auto simp: offer_resume_def Let_def ext_metadata split: sum.splits option.splits)

lemma heap_caught [simp]: "heap (caught r) = heap (snd r)"
  by (simp add: caught_eq split: option.splits)

lemma ext_step: "heap_ext (heap T) (heap (step parse T e))"
proof (cases e)
  case (SendFileCall neg p)
  with ext_getOrCreate[of T neg p True] show ?thesis
    by (auto split: prod.splits sum.splits)
next
  case (SendFileResume neg p a f)
  then show ?thesis by (simp add: ext_sendFile_resume)
next
  case (Signal neg p d)
  show ?thesis
  proof (cases d)
    case (SigOffer s x y z)
    with Signal ext_getOrCreate[of T neg p False] show ?thesis
      by (auto split: prod.splits sum.splits)
  next
    case (SigAnswer s)
    with Signal show ?thesis by (simp add: handleSignal_try_def caught_eq split: option.splits)
  next
    case (SigIceCandidate c)
    with Signal show ?thesis by (simp add: handleSignal_try_def caught_eq split: option.splits)
  next
    case SigOther
    with Signal show ?thesis by (simp add: handleSignal_try_def caught_eq)
  qed
next
  case (OfferResume neg p x y z)
  then show ?thesis by (simp add: ext_offer_resume)
next
  case (DataChannel p)
  then show ?thesis by (simp add: ondatachannel_def)
next
  case (Message i d)
  then show ?thesis by (simp add: ext_onmessage)
next
  case (ConnectionStateChange p st)
  with ext_cleanupPeer[of "callback T (OnConnectionStateChange p st)" p] show ?thesis
    by (simp add: onconnectionstatechange_def Let_def)
next
  case (IceCandidate p c)
  then show ?thesis by (simp add: onicecandidate_def)
next
  case (ChannelError e)
  then show ?thesis by simp
next
  case Destroy
  then show ?thesis using ext_fold_cleanup[of T "map fst (peers T)"] by (simp add: destroy_def)
qed

lemma ext_run: "heap_ext (heap T) (heap (run parse T evs))"
proof (induction evs arbitrary: T)
  case Nil
  show ?case by simp
next
  case (Cons e evs)
  from heap_ext_trans[OF ext_step[of T parse e] Cons.IH[of "step parse T e"]]
  show ?case by simp
qed

lemma run_append: "run parse T (evs @ evs') = run parse (run parse T evs) evs'"
  by (simp add: run_def)

lemma onmessage_binary:
  "a < length (heap T) \<Longrightarrow>
   heap (snd (onmessage parse T p (Some a) (Binary c))) =
     (heap T)[a := (heap T ! a)\<lparr>receivedChunks := receivedChunks (heap T ! a) @ [c],
                                receivedBytes := receivedBytes (heap T ! a) + length c\<rparr>]"
  by (simp add: onmessage_def Let_def)

section \<open>Sample states\<close>

text \<open>The definitions that evaluating a sample state unfolds.\<close>

lemmas sample_defs =
  receiving_def incoming_def sending_def two_chunks_def sent_once_def P2PFileTransfer_def neg_ok_def
  neg_no_offer_def neg_no_connection_def returning_def five_bytes_def empty_file_def file_size_def
  sample_parse_def metadata_msg_def end_msg_def

lemmas handler_defs =
  getOrCreatePeerConnection_def new_peerData_def catch_onError_def caught_def offer_resume_def
  ondatachannel_def sendFile_def sendFile_try_def sendFile_resume_def createDataChannel_def
  onmessage_def assembleFile_def cleanupPeer_def read_prop_def Blob_def callback_def
  mutate_def Let_def

lemma receiving_five:
  "receiving five_bytes = \<lparr>peers = [(''peer'', 0)],
    heap = [\<lparr>pc = \<lparr>pc_closed = False, pc_dataChannels = []\<rparr>, isInitiator = False,
          receivedChunks = [], receivedBytes = 0,
          fileMetadata = JObj [(''fileName'', JStr ''a.bin''), (''fileSize'', JNum 5),
              (''fileType'', JStr ''x/y'')]\<rparr>],
    receivers = [(''peer'', Some 0)],
    log = [EmitSignal ''peer'' (SigAnswer ''answer'')], listening = True,
    chunkSize = 16384\<rparr>"
  by (simp add: sample_defs handler_defs)

lemma sending_value:
  "sending = \<lparr>peers = [(''peer'', 0)],
     heap = [\<lparr>pc = \<lparr>pc_closed = False, pc_dataChannels = [five_bytes]\<rparr>,
           isInitiator = True, receivedChunks = [], receivedBytes = 0, fileMetadata = JNull\<rparr>],
     receivers = [],
     log = [EmitSignal ''peer'' (SigOffer ''offer'' (JStr ''a.bin'') (JNum 5) (JStr ''x/y''))],
     listening = True, chunkSize = 16384\<rparr>"
  by (simp add: sample_defs handler_defs)

lemma receiving_empty:
  "receiving empty_file = \<lparr>peers = [(''peer'', 0)],
    heap = [\<lparr>pc = \<lparr>pc_closed = False, pc_dataChannels = []\<rparr>, isInitiator = False,
          receivedChunks = [], receivedBytes = 0,
          fileMetadata = JObj [(''fileName'', JStr ''e.txt''), (''fileSize'', JNum 0),
              (''fileType'', JStr ''text/plain'')]\<rparr>],
    receivers = [(''peer'', Some 0)],
    log = [EmitSignal ''peer'' (SigAnswer ''answer'')], listening = True,
    chunkSize = 16384\<rparr>"
  by (simp add: sample_defs handler_defs)

section \<open>The byte count in every reachable state\<close>

text \<open>
  Claim C8. In every state the coordinator reaches, every session's \<open>receivedBytes\<close> is
  the sum of the lengths of its \<open>receivedChunks\<close>; \<open>receivedBytes\<close> of a session never
  decreases as further events are processed; and a binary chunk processed by the handler
  of a session appends the chunk and adds exactly its length.
\<close>

theorem received_bytes_invariant:
  "(\<forall>pd \<in> set (heap (run parse P2PFileTransfer evs)).
       receivedBytes pd = sum_list (map length (receivedChunks pd)))
   \<and> (\<forall>a < length (heap (run parse P2PFileTransfer evs)).
       receivedBytes (heap (run parse P2PFileTransfer evs) ! a)
         \<le> receivedBytes (heap (run parse P2PFileTransfer (evs @ evs')) ! a))
   \<and> (\<forall>a < length (heap T).
       receivedBytes (heap (snd (onmessage parse T p (Some a) (Binary c))) ! a)
         = receivedBytes (heap T ! a) + length c
       \<and> receivedChunks (heap (snd (onmessage parse T p (Some a) (Binary c))) ! a)
         = receivedChunks (heap T ! a) @ [c])"
proof -
  let ?T = "run parse P2PFileTransfer evs"
  have "heap_ext (heap P2PFileTransfer) (heap ?T)" by (rule ext_run)
  then have "\<forall>a < length (heap ?T). counted (heap ?T ! a)"
    by (simp add: heap_ext_def P2PFileTransfer_def)
  then have "\<forall>pd \<in> set (heap ?T). counted pd"
    by (auto simp: in_set_conv_nth)
  then have inv: "\<forall>pd \<in> set (heap ?T). receivedBytes pd = sum_list (map length (receivedChunks pd))"
    by (simp add: counted_def)
  have "heap_ext (heap ?T) (heap (run parse ?T evs'))" by (rule ext_run)
  then have mono: "\<forall>a < length (heap ?T).
       receivedBytes (heap ?T ! a) \<le> receivedBytes (heap (run parse P2PFileTransfer (evs @ evs')) ! a)"
    by (simp add: heap_ext_def run_append)
  have chunk: "\<forall>a < length (heap T).
       receivedBytes (heap (snd (onmessage parse T p (Some a) (Binary c))) ! a)
         = receivedBytes (heap T ! a) + length c
       \<and> receivedChunks (heap (snd (onmessage parse T p (Some a) (Binary c))) ! a)
         = receivedChunks (heap T ! a) @ [c]"
    by (simp add: onmessage_binary)
  from inv mono chunk show ?thesis by blast
qed

theorem received_bytes_invariant_witness:
  "heap (run (sample_parse five_bytes) P2PFileTransfer two_chunks) ! 0
      \<in> set (heap (run (sample_parse five_bytes) P2PFileTransfer two_chunks))
   \<and> 0 < length (heap (run (sample_parse five_bytes) P2PFileTransfer two_chunks))
   \<and> 0 < length (heap (receiving five_bytes))
   \<and> receivedChunks (heap (run (sample_parse five_bytes) P2PFileTransfer two_chunks) ! 0) = [[1, 2]]
   \<and> receivedBytes (heap (run (sample_parse five_bytes) P2PFileTransfer two_chunks) ! 0) = 2
   \<and> receivedBytes (heap (run (sample_parse five_bytes) P2PFileTransfer two_chunks) ! 0)
        = sum_list (map length
            (receivedChunks (heap (run (sample_parse five_bytes) P2PFileTransfer two_chunks) ! 0)))
   \<and> receivedBytes (heap (run (sample_parse five_bytes) P2PFileTransfer two_chunks) ! 0)
        \<le> receivedBytes (heap (run (sample_parse five_bytes) P2PFileTransfer
              (two_chunks @ [Message 0 (Binary [3])])) ! 0)
   \<and> receivedBytes (heap (snd (onmessage (sample_parse five_bytes) (receiving five_bytes) ''peer''
          (Some 0) (Binary [4, 5]))) ! 0) = receivedBytes (heap (receiving five_bytes) ! 0) + 2"
proof -
  let ?T = "run (sample_parse five_bytes) P2PFileTransfer two_chunks"
  have v: "heap ?T =
      [\<lparr>pc = \<lparr>pc_closed = False, pc_dataChannels = []\<rparr>, isInitiator = False,
          receivedChunks = [[1, 2]], receivedBytes = 2,
          fileMetadata = JObj [(''type'', JStr ''metadata''), (''fileName'', JStr ''a.bin''),
              (''fileSize'', JNum 5), (''fileType'', JStr ''x/y'')]\<rparr>]"
    by (simp add: sample_defs handler_defs)
  have h: "heap ?T ! 0 \<in> set (heap ?T)" "0 < length (heap ?T)"
      "0 < length (heap (receiving five_bytes))"
    by (simp_all add: v receiving_five)
  note inst = received_bytes_invariant[of "sample_parse five_bytes" two_chunks
      "[Message 0 (Binary [3])]" "receiving five_bytes" "''peer''" "[4, 5]"]
  from inst have A: "\<forall>pd \<in> set (heap ?T).
       receivedBytes pd = sum_list (map length (receivedChunks pd))"
    by blast
  from inst have B: "\<forall>a < length (heap ?T). receivedBytes (heap ?T ! a)
         \<le> receivedBytes (heap (run (sample_parse five_bytes) P2PFileTransfer
              (two_chunks @ [Message 0 (Binary [3])])) ! a)"
    by blast
  from inst have C: "\<forall>a < length (heap (receiving five_bytes)).
       receivedBytes (heap (snd (onmessage (sample_parse five_bytes) (receiving five_bytes)
          ''peer'' (Some a) (Binary [4, 5]))) ! a)
         = receivedBytes (heap (receiving five_bytes) ! a) + length ([4, 5] :: bytes)"
    by blast
  from A h(1) have a: "receivedBytes (heap ?T ! 0)
      = sum_list (map length (receivedChunks (heap ?T ! 0)))"
    by blast
  from B h(2) have b: "receivedBytes (heap ?T ! 0)
        \<le> receivedBytes (heap (run (sample_parse five_bytes) P2PFileTransfer
              (two_chunks @ [Message 0 (Binary [3])])) ! 0)"
    by blast
  from C h(3) have c: "receivedBytes (heap (snd (onmessage (sample_parse five_bytes)
          (receiving five_bytes) ''peer'' (Some 0) (Binary [4, 5]))) ! 0)
        = receivedBytes (heap (receiving five_bytes) ! 0) + 2"
    by simp
  have d: "receivedChunks (heap ?T ! 0) = [[1, 2]]" "receivedBytes (heap ?T ! 0) = 2"
    by (simp_all add: v)
  from h a b c d show ?thesis by blast
qed

section \<open>Stored metadata\<close>

lemma nth_update_same_field:
  assumes "fileMetadata (g (h ! a)) = fileMetadata (h ! a)"
  shows "fileMetadata (h[a := g (h ! a)] ! b) = fileMetadata (h ! b)"
proof (cases "a < length h")
  case True
  with assms show ?thesis by (cases "b = a") simp_all
next
  case False
  then show ?thesis by (simp add: list_update_beyond)
qed

lemma meta_chunk:
  "fileMetadata (h[a := (h ! a)\<lparr>receivedChunks := cs, receivedBytes := n\<rparr>] ! b)
     = fileMetadata (h ! b)"
  using nth_update_same_field[of "\<lambda>pd. pd\<lparr>receivedChunks := cs, receivedBytes := n\<rparr>" h a b]
  by simp

lemma meta_pc: "fileMetadata (h[a := (h ! a)\<lparr>pc := x\<rparr>] ! b) = fileMetadata (h ! b)"
  using nth_update_same_field[of "\<lambda>pd. pd\<lparr>pc := x\<rparr>" h a b] by simp

lemma meta_cleanupPeer: "fileMetadata (heap (cleanupPeer T p) ! b) = fileMetadata (heap T ! b)"
  by (simp add: cleanupPeer_def meta_pc split: option.splits)

lemma meta_fold_cleanup:
  "fileMetadata (heap (fold (\<lambda>p T'. cleanupPeer T' p) ps T) ! b) = fileMetadata (heap T ! b)"
  by (induction ps arbitrary: T) (simp_all add: meta_cleanupPeer)

lemma meta_assembleFile: "fileMetadata (heap (assembleFile T p) ! b) = fileMetadata (heap T ! b)"
  using meta_cleanupPeer[of "callback T e" p b for e]
  by (simp add: assembleFile_def Let_def split: option.splits)

lemma meta_getOrCreate:
  "b < length (heap T) \<Longrightarrow>
   fileMetadata (heap (snd (getOrCreatePeerConnection neg T p r)) ! b) = fileMetadata (heap T ! b)"
  by (simp add: getOrCreatePeerConnection_def nth_append split: option.splits)

lemma meta_sendFile_resume:
  "fileMetadata (heap (snd (sendFile_resume neg T p a f)) ! b) = fileMetadata (heap T ! b)"
  by (auto simp: sendFile_resume_def createDataChannel_def meta_pc
      split: sum.splits option.splits if_splits)

lemma meta_onmessage_binary:
  "fileMetadata (heap (snd (onmessage parse T p c (Binary chunk))) ! b) = fileMetadata (heap T ! b)"
  by (simp add: onmessage_def Let_def meta_chunk split: option.splits)

lemma meta_onmessage_text:
  assumes "\<not> (\<exists>m. parse s = Some m \<and> get_prop m ''type'' = Inr (JStr ''metadata''))"
  shows "fileMetadata (heap (snd (onmessage parse T p c (Text s))) ! b) = fileMetadata (heap T ! b)"
  using assms by (auto simp: onmessage_def meta_assembleFile split: option.splits sum.splits)

lemma meta_step:
  assumes "\<not> sets_metadata parse e" and "b < length (heap T)"
  shows "fileMetadata (heap (step parse T e) ! b) = fileMetadata (heap T ! b)"
proof (cases e)
  case (SendFileCall neg p)
  with meta_getOrCreate[OF assms(2), of neg p True] show ?thesis
    by (auto split: prod.splits sum.splits)
next
  case (SendFileResume neg p a f)
  then show ?thesis by (simp add: meta_sendFile_resume caught_eq split: option.splits)
next
  case (Signal neg p d)
  show ?thesis
  proof (cases d)
    case (SigOffer s x y z)
    with Signal meta_getOrCreate[OF assms(2), of neg p False] show ?thesis
      by (auto split: prod.splits sum.splits)
  next
    case (SigAnswer s)
    with Signal show ?thesis by (simp add: handleSignal_try_def caught_eq split: option.splits)
  next
    case (SigIceCandidate c)
    with Signal show ?thesis by (simp add: handleSignal_try_def caught_eq split: option.splits)
  next
    case SigOther
    with Signal show ?thesis by (simp add: handleSignal_try_def caught_eq)
  qed
next
  case (OfferResume neg p x y z)
  with assms(1) show ?thesis by (simp add: sets_metadata_def)
next
  case (DataChannel p)
  then show ?thesis by (simp add: ondatachannel_def)
next
  case (Message i d)
  show ?thesis
  proof (cases d)
    case (Text s)
    with Message assms(1)
    have "\<not> (\<exists>m. parse s = Some m \<and> get_prop m ''type'' = Inr (JStr ''metadata''))"
      by (auto simp: sets_metadata_def)
    with Message Text show ?thesis by (simp add: meta_onmessage_text)
  next
    case (Binary c)
    with Message show ?thesis by (simp add: meta_onmessage_binary)
  qed
next
  case (ConnectionStateChange p st)
  with meta_cleanupPeer[of "callback T (OnConnectionStateChange p st)" p b] show ?thesis
    by (simp add: onconnectionstatechange_def Let_def)
next
  case (IceCandidate p c)
  then show ?thesis by (simp add: onicecandidate_def)
next
  case (ChannelError e)
  then show ?thesis by simp
next
  case Destroy
  then show ?thesis by (simp add: destroy_def meta_fold_cleanup)
qed

lemma onmessage_metadata:
  assumes "parse s = Some m" and "get_prop m ''type'' = Inr (JStr ''metadata'')"
  shows "onmessage parse T p (Some a) (Text s) =
           (Resolved, mutate T a (\<lambda>pd. pd\<lparr>fileMetadata := m\<rparr>))"
  using assms by (simp add: onmessage_def)

lemma onmessage_end:
  assumes "parse s = Some m" and "get_prop m ''type'' = Inr (JStr ''end'')"
  shows "onmessage parse T p c (Text s) = (Resolved, assembleFile T p)"
  using assms by (simp add: onmessage_def)

text \<open>
  Claim C9 (as amended). The stored metadata is not immutable. A metadata control frame
  replaces it by the parsed frame, and the continuation of an offer for the peer replaces
  it by the offer's \<open>fileName\<close>, \<open>fileSize\<close> and \<open>fileType\<close>, whether or not metadata
  was stored before. Every other event leaves the metadata of every session as it was.
\<close>

theorem metadata_is_overwritten:
  "(a < length (heap T) \<longrightarrow> parse s = Some m \<longrightarrow> get_prop m ''type'' = Inr (JStr ''metadata'') \<longrightarrow>
      fileMetadata (heap (snd (onmessage parse T p (Some a) (Text s))) ! a) = m)
   \<and> (a < length (heap T) \<longrightarrow> map_of (peers T) p = Some a \<longrightarrow>
      fileMetadata (heap (snd (offer_resume neg T p x y z)) ! a) =
        JObj [(''fileName'', x), (''fileSize'', y), (''fileType'', z)])
   \<and> (b < length (heap T) \<longrightarrow> \<not> sets_metadata parse e \<longrightarrow>
      fileMetadata (heap (step parse T e) ! b) = fileMetadata (heap T ! b))"
proof (intro conjI impI)
  assume "a < length (heap T)" "parse s = Some m" "get_prop m ''type'' = Inr (JStr ''metadata'')"
  then show "fileMetadata (heap (snd (onmessage parse T p (Some a) (Text s))) ! a) = m"
    by (simp add: onmessage_metadata)
next
  assume "a < length (heap T)" "map_of (peers T) p = Some a"
  then show "fileMetadata (heap (snd (offer_resume neg T p x y z)) ! a) =
        JObj [(''fileName'', x), (''fileSize'', y), (''fileType'', z)]"
    by (simp add: offer_resume_def Let_def split: option.splits sum.splits)
next
  assume "b < length (heap T)" "\<not> sets_metadata parse e"
  then show "fileMetadata (heap (step parse T e) ! b) = fileMetadata (heap T ! b)"
    by (simp add: meta_step)
qed

theorem metadata_is_overwritten_witness:
  "0 < length (heap (receiving five_bytes))
   \<and> sample_parse five_bytes ''M'' = Some (metadata_msg five_bytes)
   \<and> get_prop (metadata_msg five_bytes) ''type'' = Inr (JStr ''metadata'')
   \<and> map_of (peers (receiving five_bytes)) ''peer'' = Some 0
   \<and> \<not> sets_metadata (sample_parse five_bytes) (Message 0 (Binary [1]))
   \<and> fileMetadata (heap (snd (onmessage (sample_parse five_bytes) (receiving five_bytes) ''peer''
          (Some 0) (Text ''M''))) ! 0) = metadata_msg five_bytes
   \<and> fileMetadata (heap (snd (offer_resume neg_ok (receiving five_bytes) ''peer''
          (JStr ''e.txt'') (JNum 0) (JStr ''text/plain''))) ! 0) =
        JObj [(''fileName'', JStr ''e.txt''), (''fileSize'', JNum 0), (''fileType'', JStr ''text/plain'')]
   \<and> fileMetadata (heap (step (sample_parse five_bytes) (receiving five_bytes)
          (Message 0 (Binary [1]))) ! 0) = fileMetadata (heap (receiving five_bytes) ! 0)"
proof -
  have h: "0 < length (heap (receiving five_bytes))"
      "sample_parse five_bytes ''M'' = Some (metadata_msg five_bytes)"
      "get_prop (metadata_msg five_bytes) ''type'' = Inr (JStr ''metadata'')"
      "map_of (peers (receiving five_bytes)) ''peer'' = Some 0"
      "\<not> sets_metadata (sample_parse five_bytes) (Message 0 (Binary [1]))"
    by (simp_all add: receiving_five sample_parse_def metadata_msg_def sets_metadata_def)
  from metadata_is_overwritten[of 0 "receiving five_bytes" "sample_parse five_bytes" "''M''"
      "metadata_msg five_bytes" "''peer''" neg_ok "JStr ''e.txt''" "JNum 0" "JStr ''text/plain''"
      0 "Message 0 (Binary [1])"] h
  show ?thesis by simp
qed

text \<open>
  Claim C9 as stated fails: a receiver that stored the metadata of the offer for
  \<open>five_bytes\<close> holds other metadata after a second offer from the same peer, and also
  after the metadata frame of the same file.
\<close>

theorem metadata_immutable_counterexample:
  "fileMetadata (heap (receiving five_bytes) ! 0) =
     JObj [(''fileName'', JStr ''a.bin''), (''fileSize'', JNum 5), (''fileType'', JStr ''x/y'')]
   \<and> fileMetadata (heap (run (sample_parse five_bytes) (receiving five_bytes)
        (incoming empty_file)) ! 0) =
     JObj [(''fileName'', JStr ''e.txt''), (''fileSize'', JNum 0), (''fileType'', JStr ''text/plain'')]
   \<and> fileMetadata (heap (run (sample_parse five_bytes) (receiving five_bytes)
        [Message 0 (Text ''M'')]) ! 0) =
     JObj [(''type'', JStr ''metadata''), (''fileName'', JStr ''a.bin''), (''fileSize'', JNum 5),
           (''fileType'', JStr ''x/y'')]"
  by (simp add: sample_defs handler_defs)

section \<open>Malformed frames\<close>

text \<open>
  Claim C3 (as amended). A textual frame that \<open>JSON.parse\<close> rejects leaves the registry,
  every session and the installed handlers unchanged. An end frame that arrives while the
  registry has no entry for the peer, or an entry without metadata, changes nothing at
  all and invokes no callback: \<open>_assembleFile\<close> returns at its guard.
\<close>

theorem malformed_frame_keeps_state:
  "(parse s = None \<longrightarrow>
      fst (onmessage parse T p c (Text s)) = Rejected SyntaxError
      \<and> peers (snd (onmessage parse T p c (Text s))) = peers T
      \<and> heap (snd (onmessage parse T p c (Text s))) = heap T
      \<and> receivers (snd (onmessage parse T p c (Text s))) = receivers T)
   \<and> (parse s' = Some m \<longrightarrow> get_prop m ''type'' = Inr (JStr ''end'') \<longrightarrow>
      (case map_of (peers T) p of None \<Rightarrow> True
       | Some a \<Rightarrow> \<not> truthy (fileMetadata (heap T ! a))) \<longrightarrow>
      onmessage parse T p c (Text s') = (Resolved, T))"
  by (auto simp: onmessage_def assembleFile_def split: option.splits)

theorem malformed_frame_keeps_state_witness:
  "sample_parse five_bytes ''zz'' = None
   \<and> sample_parse five_bytes ''E'' = Some end_msg
   \<and> get_prop end_msg ''type'' = Inr (JStr ''end'')
   \<and> map_of (peers sending) ''peer'' = Some 0
   \<and> \<not> truthy (fileMetadata (heap sending ! 0))
   \<and> heap (snd (onmessage (sample_parse five_bytes) sending ''peer'' (Some 0) (Text ''zz''))) = heap sending
   \<and> peers (snd (onmessage (sample_parse five_bytes) sending ''peer'' (Some 0) (Text ''zz''))) = peers sending
   \<and> onmessage (sample_parse five_bytes) sending ''peer'' (Some 0) (Text ''E'') = (Resolved, sending)"
proof -
  have h: "sample_parse five_bytes ''zz'' = None"
     "sample_parse five_bytes ''E'' = Some end_msg"
     "get_prop end_msg ''type'' = Inr (JStr ''end'')"
     "map_of (peers sending) ''peer'' = Some 0"
     "\<not> truthy (fileMetadata (heap sending ! 0))"
    by (simp_all add: sample_parse_def end_msg_def sending_value)
  from malformed_frame_keeps_state[of "sample_parse five_bytes" "''zz''" sending "''peer''" "Some 0"
      "''E''" end_msg] h
  show ?thesis by simp
qed

text \<open>
  Claim C3 as stated fails: an end frame received by a session without metadata is not
  reported, the log of callbacks stays empty.
\<close>

theorem malformed_frame_counterexample:
  "fileMetadata (heap (run (sample_parse five_bytes) P2PFileTransfer
       [SendFileCall neg_ok ''peer'', DataChannel ''peer'']) ! 0) = JNull
   \<and> log (run (sample_parse five_bytes) P2PFileTransfer
       [SendFileCall neg_ok ''peer'', DataChannel ''peer'', Message 0 (Text ''E'')]) = []"
  by (simp add: sample_defs handler_defs)

section \<open>Sending twice to one peer\<close>

lemma sendFile_known_peer:
  assumes "map_of (peers T) p = Some a"
  shows "sendFile onError neg T p f = catch_onError onError (sendFile_resume neg T p a f)"
  using assms by (simp add: sendFile_def sendFile_try_def getOrCreatePeerConnection_def)

lemma sendFile_resume_open:
  assumes "a < length (heap T)" and "\<not> pc_closed (pc (heap T ! a))"
  shows "heap (snd (sendFile_resume neg T p a f)) =
           (heap T)[a := (heap T ! a)\<lparr>pc := (pc (heap T ! a))
               \<lparr>pc_dataChannels := pc_dataChannels (pc (heap T ! a)) @ [f]\<rparr>\<rparr>]"
  using assms
  by (simp add: sendFile_resume_def createDataChannel_def split: sum.splits option.splits)

text \<open>
  Claim C4 (as amended). When the registry has a session for the peer, whatever its role,
  \<open>_getOrCreatePeerConnection\<close> returns that session's connection and \<open>sendFile\<close> adds
  no session and changes no role; it creates a further data channel, bound to the new
  file, on the existing connection.
\<close>

theorem resend_reuses_connection:
  assumes "map_of (peers T) p = Some a" and "a < length (heap T)"
    and "\<not> pc_closed (pc (heap T ! a))"
  shows "fst (getOrCreatePeerConnection neg T p role) = Inr a
       \<and> peers (snd (sendFile onError neg T p f)) = peers T
       \<and> length (heap (snd (sendFile onError neg T p f))) = length (heap T)
       \<and> isInitiator (heap (snd (sendFile onError neg T p f)) ! a) = isInitiator (heap T ! a)
       \<and> pc_dataChannels (pc (heap (snd (sendFile onError neg T p f)) ! a)) =
           pc_dataChannels (pc (heap T ! a)) @ [f]"
proof -
  have h: "heap (snd (sendFile onError neg T p f)) =
           (heap T)[a := (heap T ! a)\<lparr>pc := (pc (heap T ! a))
               \<lparr>pc_dataChannels := pc_dataChannels (pc (heap T ! a)) @ [f]\<rparr>\<rparr>]"
    using assms
    by (simp add: sendFile_known_peer caught_eq sendFile_resume_open split: option.splits)
  have "fst (getOrCreatePeerConnection neg T p role) = Inr a"
    using assms(1) by (simp add: getOrCreatePeerConnection_def)
  moreover have "peers (snd (sendFile onError neg T p f)) = peers T"
    using assms(1) by (simp add: sendFile_known_peer caught_eq sendFile_resume_def
        createDataChannel_def split: option.splits sum.splits)
  ultimately show ?thesis using h assms(2) by simp
qed

theorem resend_reuses_connection_witness:
  "map_of (peers sending) ''peer'' = Some 0 \<and> 0 < length (heap sending)
   \<and> \<not> pc_closed (pc (heap sending ! 0))
   \<and> fst (getOrCreatePeerConnection neg_ok sending ''peer'' False) = Inr 0
   \<and> peers (snd (sendFile returning neg_ok sending ''peer'' empty_file)) = [(''peer'', 0)]
   \<and> length (heap (snd (sendFile returning neg_ok sending ''peer'' empty_file))) = 1
   \<and> pc_dataChannels (pc (heap (snd (sendFile returning neg_ok sending ''peer'' empty_file)) ! 0)) =
        [five_bytes, empty_file]"
proof -
  have s: "sending = \<lparr>peers = [(''peer'', 0)],
     heap = [\<lparr>pc = \<lparr>pc_closed = False, pc_dataChannels = [five_bytes]\<rparr>,
           isInitiator = True, receivedChunks = [], receivedBytes = 0, fileMetadata = JNull\<rparr>],
     receivers = [],
     log = [EmitSignal ''peer'' (SigOffer ''offer'' (JStr ''a.bin'') (JNum 5) (JStr ''x/y''))],
     listening = True, chunkSize = 16384\<rparr>"
    by (simp add: sample_defs handler_defs)
  have h: "map_of (peers sending) ''peer'' = Some 0" "0 < length (heap sending)"
      "\<not> pc_closed (pc (heap sending ! 0))"
    by (simp_all add: s)
  from resend_reuses_connection[OF h, of neg_ok False returning empty_file] h
  show ?thesis by (simp add: s)
qed

text \<open>
  Claim C4 as stated fails: after a second \<open>sendFile\<close> to the same peer the connection
  has two data channels, one per file.
\<close>

theorem channel_reuse_counterexample:
  "pc_dataChannels (pc (heap sending ! 0)) = [five_bytes]
   \<and> pc_dataChannels (pc (heap (snd (sendFile returning neg_ok sending ''peer'' empty_file)) ! 0)) =
        [five_bytes, empty_file]"
  by (simp add: sample_defs handler_defs)

section \<open>Errors of \<open>sendFile\<close>\<close>

text \<open>
  In every reachable state the registered sessions are distinct objects with open
  connections: \<open>_cleanupPeer\<close> closes a connection only as it removes its entry.
\<close>

lemma registered_callback [simp]: "registered_open (callback T e) = registered_open T"
  by (simp add: registered_open_def)

lemma registered_mutate:
  assumes "registered_open T" and "\<And>pd. pc_closed (pc (g pd)) = pc_closed (pc pd)"
  shows "registered_open (mutate T a g)"
proof -
  have "pc_closed (pc ((heap T)[a := g (heap T ! a)] ! b)) = pc_closed (pc (heap T ! b))" for b
  proof (cases "a < length (heap T)")
    case True
    then show ?thesis using assms(2) by (cases "b = a") simp_all
  next
    case False
    then show ?thesis by (simp add: list_update_beyond)
  qed
  with assms(1) show ?thesis by (simp add: registered_open_def)
qed

lemma registered_getOrCreate:
  assumes "registered_open T"
  shows "registered_open (snd (getOrCreatePeerConnection neg T p r))"
proof (cases "map_of (peers T) p = None \<and> construct neg = None")
  case False
  then show ?thesis using assms
    by (auto simp: getOrCreatePeerConnection_def split: option.splits)
next
  case True
  then have fresh: "p \<notin> fst ` set (peers T)" by (simp add: map_of_eq_None_iff)
  have bound: "\<forall>(q, b) \<in> set (peers T). b < length (heap T)"
    using assms by (auto simp: registered_open_def)
  then have "length (heap T) \<notin> snd ` set (peers T)" by fastforce
  with True fresh assms show ?thesis
    by (auto simp: getOrCreatePeerConnection_def update_fresh registered_open_def nth_append
        new_peerData_def)
qed

lemma registered_cleanupPeer:
  assumes "registered_open T"
  shows "registered_open (cleanupPeer T p)"
proof (cases "map_of (peers T) p")
  case None
  then show ?thesis using assms by (simp add: cleanupPeer_def)
next
  case (Some a)
  then have pa: "(p, a) \<in> set (peers T)" by (rule map_of_SomeD)
  have dk: "distinct (map fst (peers T))" and ds: "distinct (map snd (peers T))"
    using assms by (simp_all add: registered_open_def)
  have sub: "set (AList.delete p (peers T)) \<subseteq> set (peers T)"
    by (auto simp: AList.delete_eq)
  have other: "b \<noteq> a" if "(q, b) \<in> set (AList.delete p (peers T))" for q b
  proof
    assume "b = a"
    from that have q: "(q, b) \<in> set (peers T)" "q \<noteq> p"
      by (auto simp: AList.delete_eq)
    from ds have "inj_on snd (set (peers T))" by (simp add: distinct_map)
    from this pa q(1) have "snd (q, b) = snd (p, a) \<longrightarrow> (q, b) = (p, a)"
      unfolding inj_on_def by blast
    with \<open>b = a\<close> have "(q, b) = (p, a)" by simp
    with q(2) show False by simp
  qed
  have d1: "distinct (map fst (AList.delete p (peers T)))" using dk by (rule distinct_delete)
  have d2: "distinct (map snd (AList.delete p (peers T)))"
    using ds by (simp add: AList.delete_eq distinct_map_filter)
  have "b < length (heap T) \<and>
        \<not> pc_closed (pc ((heap T)[a := (heap T ! a)\<lparr>pc := (pc (heap T ! a))\<lparr>pc_closed := True\<rparr>\<rparr>] ! b))"
    if "(q, b) \<in> set (AList.delete p (peers T))" for q b
  proof -
    from that sub have "(q, b) \<in> set (peers T)" by blast
    with assms have "b < length (heap T)" "\<not> pc_closed (pc (heap T ! b))"
      by (auto simp: registered_open_def)
    moreover from that have "b \<noteq> a" by (rule other)
    ultimately show ?thesis by simp
  qed
  with d1 d2 Some show ?thesis
    by (auto simp: cleanupPeer_def registered_open_def)
qed

lemma registered_fold_cleanup:
  "registered_open T \<Longrightarrow> registered_open (fold (\<lambda>p T'. cleanupPeer T' p) ps T)"
  by (induction ps arbitrary: T) (simp_all add: registered_cleanupPeer)

lemma registered_assembleFile: "registered_open T \<Longrightarrow> registered_open (assembleFile T p)"
  by (simp add: assembleFile_def Let_def registered_cleanupPeer split: option.splits)

lemma registered_onmessage:
  "registered_open T \<Longrightarrow> registered_open (snd (onmessage parse T p c d))"
  by (auto simp: onmessage_def Let_def registered_mutate registered_assembleFile
      split: frame.splits option.splits sum.splits)

lemma registered_sendFile_resume:
  "registered_open T \<Longrightarrow> registered_open (snd (sendFile_resume neg T p a f))"
  by (auto simp: sendFile_resume_def createDataChannel_def registered_mutate
      split: sum.splits option.splits if_splits)

lemma registered_offer_resume:
  "registered_open T \<Longrightarrow> registered_open (snd (offer_resume neg T p x y z))"
  by (auto simp: offer_resume_def Let_def registered_mutate split: sum.splits option.splits)

lemma registered_caught: "registered_open (snd r) \<Longrightarrow> registered_open (caught r)"
  by (simp add: caught_eq split: option.splits)

lemma registered_step:
  assumes "registered_open T"
  shows "registered_open (step parse T e)"
proof (cases e)
  case (SendFileCall neg p)
  with registered_getOrCreate[OF assms, of neg p True] show ?thesis
    by (auto split: prod.splits sum.splits)
next
  case (SendFileResume neg p a f)
  with assms show ?thesis by (simp add: registered_caught registered_sendFile_resume)
next
  case (Signal neg p d)
  show ?thesis
  proof (cases d)
    case (SigOffer s x y z)
    with Signal registered_getOrCreate[OF assms, of neg p False] assms show ?thesis
      by (auto split: prod.splits sum.splits)
  next
    case (SigAnswer s)
    with Signal assms show ?thesis by (simp add: handleSignal_try_def caught_eq split: option.splits)
  next
    case (SigIceCandidate c)
    with Signal assms show ?thesis by (simp add: handleSignal_try_def caught_eq split: option.splits)
  next
    case SigOther
    with Signal assms show ?thesis by (simp add: handleSignal_try_def caught_eq)
  qed
next
  case (OfferResume neg p x y z)
  with assms show ?thesis by (simp add: registered_caught registered_offer_resume)
next
  case (DataChannel p)
  with assms show ?thesis by (simp add: ondatachannel_def registered_open_def)
next
  case (Message i d)
  with assms show ?thesis by (simp add: registered_onmessage)
next
  case (ConnectionStateChange p st)
  with assms show ?thesis
    by (simp add: onconnectionstatechange_def Let_def registered_cleanupPeer)
next
  case (IceCandidate p c)
  with assms show ?thesis by (simp add: onicecandidate_def)
next
  case (ChannelError e)
  with assms show ?thesis by simp
next
  case Destroy
  with registered_fold_cleanup[OF assms, of "map fst (peers T)"] show ?thesis
    by (simp add: destroy_def registered_open_def)
qed

lemma registered_run: "registered_open T \<Longrightarrow> registered_open (run parse T evs)"
  by (induction evs arbitrary: T) (simp_all add: registered_step)

lemma registered_reachable: "registered_open (run parse P2PFileTransfer evs)"
  by (rule registered_run) (simp add: registered_open_def P2PFileTransfer_def)

lemma createOffer_failure_is_thrown:
  assumes "registered_open T" and "map_of (peers T) p = None \<longrightarrow> construct neg = None"
    and "createOffer neg = Inl e"
  shows "fst (sendFile_try neg T p f) = Some e"
proof (cases "map_of (peers T) p")
  case None
  with assms(2,3) show ?thesis
    by (simp add: sendFile_try_def getOrCreatePeerConnection_def sendFile_resume_def
        createDataChannel_def new_peerData_def mutate_def)
next
  case (Some a)
  then have "(p, a) \<in> set (peers T)" by (rule map_of_SomeD)
  with assms(1) have "\<not> pc_closed (pc (heap T ! a))" by (auto simp: registered_open_def)
  with Some assms(3) show ?thesis
    by (simp add: sendFile_try_def getOrCreatePeerConnection_def sendFile_resume_def
        createDataChannel_def)
qed

text \<open>When the error callback throws, the promise of \<open>sendFile\<close> rejects with what it threw.\<close>

lemma sendFile_rejects_when_onError_throws:
  assumes "fst (sendFile_try neg T p f) = Some e" and "onError e = Some thrown"
  shows "fst (sendFile onError neg T p f) = Rejected thrown"
  using assms by (cases "sendFile_try neg T p f") (simp add: sendFile_def catch_onError_def)

lemma sent_once_value:
  "run parse P2PFileTransfer sent_once = \<lparr>peers = [(''peer'', 0)],
     heap = [\<lparr>pc = \<lparr>pc_closed = False, pc_dataChannels = [five_bytes]\<rparr>,
           isInitiator = True, receivedChunks = [], receivedBytes = 0, fileMetadata = JNull\<rparr>],
     receivers = [],
     log = [EmitSignal ''peer'' (SigOffer ''offer'' (JStr ''a.bin'') (JNum 5) (JStr ''x/y''))],
     listening = True, chunkSize = 16384\<rparr>"
  by (simp add: sent_once_def sample_defs handler_defs)

text \<open>
  Claim C6 (as amended). An error thrown in the \<open>try\<close> block of \<open>sendFile\<close> is passed to
  the error callback, and when the callback returns the promise of \<open>sendFile\<close> resolves:
  it is not rejected with that error. The construction of a connection for an unknown
  peer that fails, and in every reachable state the creation of the offer that fails,
  for a known peer as for a new one, are such errors.
\<close>

theorem sendFile_reports_errors:
  "(fst (sendFile_try neg T p f) = Some e \<longrightarrow>
      snd (sendFile onError neg T p f) = callback (snd (sendFile_try neg T p f)) (OnError e)
      \<and> (onError e = None \<longrightarrow> fst (sendFile onError neg T p f) = Resolved))
   \<and> (map_of (peers T) p = None \<longrightarrow> construct neg' = Some e' \<longrightarrow>
        sendFile_try neg' T p f = (Some e', T))
   \<and> ((map_of (peers (run parse P2PFileTransfer evs)) p = None \<longrightarrow> construct neg = None) \<longrightarrow>
        createOffer neg = Inl e \<longrightarrow>
        fst (sendFile_try neg (run parse P2PFileTransfer evs) p f) = Some e)"
proof (intro conjI impI)
  assume "fst (sendFile_try neg T p f) = Some e"
  then show "snd (sendFile onError neg T p f) = callback (snd (sendFile_try neg T p f)) (OnError e)"
    by (simp add: sendFile_def caught_eq)
next
  assume "fst (sendFile_try neg T p f) = Some e" "onError e = None"
  then show "fst (sendFile onError neg T p f) = Resolved"
    by (cases "sendFile_try neg T p f") (simp add: sendFile_def catch_onError_def)
next
  assume "map_of (peers T) p = None" "construct neg' = Some e'"
  then show "sendFile_try neg' T p f = (Some e', T)"
    by (simp add: sendFile_try_def getOrCreatePeerConnection_def)
next
  assume "map_of (peers (run parse P2PFileTransfer evs)) p = None \<longrightarrow> construct neg = None"
     "createOffer neg = Inl e"
  then show "fst (sendFile_try neg (run parse P2PFileTransfer evs) p f) = Some e"
    using registered_reachable by (rule createOffer_failure_is_thrown[rotated])
qed

theorem sendFile_reports_errors_witness:
  "map_of (peers P2PFileTransfer) ''peer'' = None
   \<and> construct neg_no_connection = Some (NegotiatorError ''no connection'')
   \<and> createOffer neg_no_offer = Inl (NegotiatorError ''no offer'')
   \<and> returning (NegotiatorError ''no offer'') = None
   \<and> map_of (peers (run (sample_parse five_bytes) P2PFileTransfer sent_once)) ''peer'' = Some 0
   \<and> sendFile_try neg_no_connection P2PFileTransfer ''peer'' five_bytes
        = (Some (NegotiatorError ''no connection''), P2PFileTransfer)
   \<and> fst (sendFile_try neg_no_offer (run (sample_parse five_bytes) P2PFileTransfer sent_once)
          ''peer'' empty_file)
        = Some (NegotiatorError ''no offer'')
   \<and> fst (sendFile_try neg_no_offer P2PFileTransfer ''peer'' five_bytes)
        = Some (NegotiatorError ''no offer'')
   \<and> fst (sendFile returning neg_no_offer P2PFileTransfer ''peer'' five_bytes) = Resolved
   \<and> log (snd (sendFile returning neg_no_offer P2PFileTransfer ''peer'' five_bytes))
        = [OnError (NegotiatorError ''no offer'')]"
proof -
  have h: "map_of (peers P2PFileTransfer) ''peer'' = None"
     "construct neg_no_connection = Some (NegotiatorError ''no connection'')"
     "createOffer neg_no_offer = Inl (NegotiatorError ''no offer'')"
     "returning (NegotiatorError ''no offer'') = None"
     "map_of (peers (run (sample_parse five_bytes) P2PFileTransfer sent_once)) ''peer'' = Some 0"
    by (simp_all add: sent_once_value)
       (simp_all add: P2PFileTransfer_def neg_no_offer_def neg_no_connection_def neg_ok_def
          returning_def)
  have t: "fst (sendFile_try neg_no_offer P2PFileTransfer ''peer'' five_bytes)
        = Some (NegotiatorError ''no offer'')"
    by (simp add: sample_defs handler_defs)
  have l: "log (snd (sendFile returning neg_no_offer P2PFileTransfer ''peer'' five_bytes))
        = [OnError (NegotiatorError ''no offer'')]"
    by (simp add: sample_defs handler_defs)
  note inst = sendFile_reports_errors[where neg = neg_no_offer and T = P2PFileTransfer
      and p = "''peer''" and e = "NegotiatorError ''no offer''" and onError = returning
      and neg' = neg_no_connection and e' = "NegotiatorError ''no connection''"
      and parse = "sample_parse five_bytes" and evs = sent_once]
  from inst h(1,2) have a: "sendFile_try neg_no_connection P2PFileTransfer ''peer'' five_bytes
        = (Some (NegotiatorError ''no connection''), P2PFileTransfer)"
    by blast
  from inst h(3,5) have b: "fst (sendFile_try neg_no_offer
        (run (sample_parse five_bytes) P2PFileTransfer sent_once) ''peer'' empty_file)
        = Some (NegotiatorError ''no offer'')"
    by simp
  from inst t h(4) have c: "fst (sendFile returning neg_no_offer P2PFileTransfer ''peer'' five_bytes)
        = Resolved"
    by blast
  from h a b c t l show ?thesis by blast
qed

text \<open>
  Claim C6 as stated fails: when \<open>createOffer\<close> rejects and the error callback returns,
  the error is reported and the promise of \<open>sendFile\<close> is not rejected with it.
\<close>

theorem sendFile_rejects_counterexample:
  "fst (sendFile_try neg_no_offer P2PFileTransfer ''peer'' five_bytes)
        = Some (NegotiatorError ''no offer'')
   \<and> log (snd (sendFile returning neg_no_offer P2PFileTransfer ''peer'' five_bytes))
        = [OnError (NegotiatorError ''no offer'')]
   \<and> fst (sendFile returning neg_no_offer P2PFileTransfer ''peer'' five_bytes)
        \<noteq> Rejected (NegotiatorError ''no offer'')"
  by (simp add: sample_defs handler_defs)

section \<open>The empty file\<close>

lemma sendFileInChunks_empty:
  assumes "file_size f = 0" and "readyState ch = RS_open" and "\<not> closes (env 0)"
  shows "sendFileInChunks C stringify env ch f =
     Some (Inr \<lparr>chan = \<lparr>readyState = RS_open,
                      bufferedAmount = bufferedAmount ch + length (stringify (metadata_msg f))
                         - drain (env 0) + length (stringify end_msg)\<rparr>,
                offset = 0,
                effects = [ChannelSend (Text (stringify (metadata_msg f))), ChannelSend (Binary []),
                           OnProgress 0 (JNum 0), ChannelSend (Text (stringify end_msg))],
                tick = 1\<rparr>)"
  using assms
  by (simp add: sendFileInChunks_def channel_send_def readLoop.simps Let_def env_pass_def
        slice_def file_size_def)

lemma metadata_msg_props:
  "get_prop (metadata_msg f) ''type'' = Inr (JStr ''metadata'')"
  "truthy (metadata_msg f)"
  "read_prop (metadata_msg f) ''fileSize'' = JNum (int (file_size f))"
  "read_prop (metadata_msg f) ''fileType'' = JStr (file_type f)"
  "read_prop (metadata_msg f) ''fileName'' = JStr (file_name f)"
  by (simp_all add: metadata_msg_def read_prop_def)

lemma end_msg_type: "get_prop end_msg ''type'' = Inr (JStr ''end'')"
  by (simp add: end_msg_def)

lemma receive_empty_file:
  assumes pm: "parse sm = Some (metadata_msg f)" and pe: "parse se = Some end_msg"
    and i: "i < length (receivers T)" and r: "receivers T ! i = (p, Some a)"
    and reg: "map_of (peers T) p = Some a" and a: "a < length (heap T)"
    and fresh: "receivedChunks (heap T ! a) = []" "receivedBytes (heap T ! a) = 0"
    and size0: "file_size f = 0"
  shows "log (run parse T [Message i (Text sm), Message i (Binary []), Message i (Text se)]) =
           log T @ [OnProgress 0 (JNum 0),
                    OnComplete \<lparr>blob_bytes = [], blob_type = JStr (file_type f)\<rparr>
                      (JStr (file_name f)) p]"
    and "map_of (peers (run parse T [Message i (Text sm), Message i (Binary []), Message i (Text se)])) p
           = None"
proof -
  define T1 where "T1 = mutate T a (\<lambda>pd. pd\<lparr>fileMetadata := metadata_msg f\<rparr>)"
  define T2 where "T2 = callback
      (mutate T1 a (\<lambda>pd. pd\<lparr>receivedChunks := receivedChunks pd @ [[]],
                             receivedBytes := receivedBytes pd + length ([] :: bytes)\<rparr>))
      (OnProgress 0 (JNum 0))"
  have s1: "step parse T (Message i (Text sm)) = T1"
    using i r pm by (simp add: onmessage_metadata metadata_msg_props T1_def)
  have T1_facts: "receivers T1 = receivers T" "peers T1 = peers T" "log T1 = log T"
      "length (heap T1) = length (heap T)"
      "heap T1 ! a = (heap T ! a)\<lparr>fileMetadata := metadata_msg f\<rparr>"
    using a by (simp_all add: T1_def)
  have s2: "step parse T1 (Message i (Binary [])) = T2"
    using i r a T1_facts fresh size0
    by (simp add: onmessage_def Let_def metadata_msg_props T2_def)
  have T2_facts: "receivers T2 = receivers T" "peers T2 = peers T"
      "log T2 = log T @ [OnProgress 0 (JNum 0)]"
      "heap T2 ! a = (heap T ! a)\<lparr>fileMetadata := metadata_msg f, receivedChunks := [[]],
                                   receivedBytes := 0\<rparr>"
    using a fresh T1_facts by (simp_all add: T2_def)
  have s3: "step parse T2 (Message i (Text se)) = assembleFile T2 p"
    using i r pe T2_facts by (simp add: onmessage_end end_msg_type)
  have asm: "assembleFile T2 p =
      cleanupPeer (callback T2 (OnComplete \<lparr>blob_bytes = [], blob_type = JStr (file_type f)\<rparr>
                      (JStr (file_name f)) p)) p"
    using reg T2_facts by (simp add: assembleFile_def Let_def metadata_msg_props Blob_def)
  have run: "run parse T [Message i (Text sm), Message i (Binary []), Message i (Text se)]
      = assembleFile T2 p"
    by (simp only: run_Cons run_Nil s1 s2 s3)
  show "log (run parse T [Message i (Text sm), Message i (Binary []), Message i (Text se)]) =
           log T @ [OnProgress 0 (JNum 0),
                    OnComplete \<lparr>blob_bytes = [], blob_type = JStr (file_type f)\<rparr>
                      (JStr (file_name f)) p]"
    unfolding run asm using reg T2_facts by (simp add: cleanupPeer_def)
  show "map_of (peers (run parse T [Message i (Text sm), Message i (Binary []), Message i (Text se)])) p
           = None"
    unfolding run asm by (simp add: peers_cleanupPeer delete_conv')
qed

text \<open>
  Claim C5 (as amended). For a file of size 0 the sender emits the metadata frame, one
  binary chunk of length 0 with the progress report (0, 0), then the end frame. A
  receiver with a fresh session for the peer that is given these frames reports the
  progress (0, 0), completes with an empty blob of the file's type under the file's name,
  and removes the session.
\<close>

theorem zero_byte_transfer:
  assumes "file_size f = 0" and "readyState ch = RS_open" and "\<not> closes (env 0)"
    and "parse (stringify (metadata_msg f)) = Some (metadata_msg f)"
    and "parse (stringify end_msg) = Some end_msg"
    and "i < length (receivers T)" and "receivers T ! i = (p, Some a)"
    and "map_of (peers T) p = Some a" and "a < length (heap T)"
    and "receivedChunks (heap T ! a) = []" and "receivedBytes (heap T ! a) = 0"
  shows "\<exists>s. sendFileInChunks C stringify env ch f = Some (Inr s)
       \<and> effects s = [ChannelSend (Text (stringify (metadata_msg f))), ChannelSend (Binary []),
                      OnProgress 0 (JNum 0), ChannelSend (Text (stringify end_msg))]
       \<and> log (run parse T (map (Message i) (sent_frames (effects s)))) =
           log T @ [OnProgress 0 (JNum 0),
                    OnComplete \<lparr>blob_bytes = [], blob_type = JStr (file_type f)\<rparr>
                      (JStr (file_name f)) p]
       \<and> map_of (peers (run parse T (map (Message i) (sent_frames (effects s))))) p = None"
proof -
  from sendFileInChunks_empty[where f = f and ch = ch and env = env and C = C
        and stringify = stringify] assms(1,2,3)
  obtain s where s: "sendFileInChunks C stringify env ch f = Some (Inr s)"
     "effects s = [ChannelSend (Text (stringify (metadata_msg f))), ChannelSend (Binary []),
                      OnProgress 0 (JNum 0), ChannelSend (Text (stringify end_msg))]"
    by simp
  have fr: "map (Message i) (sent_frames (effects s)) =
      [Message i (Text (stringify (metadata_msg f))), Message i (Binary []),
       Message i (Text (stringify end_msg))]"
    by (simp add: s(2))
  from receive_empty_file[OF assms(4,5,6,7,8,9,10,11,1)] s fr
  show ?thesis by simp
qed

theorem zero_byte_transfer_witness:
  "file_size empty_file = 0 \<and> readyState open_channel = RS_open \<and> \<not> closes (frozen 0)
   \<and> sample_parse empty_file (sample_stringify (metadata_msg empty_file))
        = Some (metadata_msg empty_file)
   \<and> sample_parse empty_file (sample_stringify end_msg) = Some end_msg
   \<and> 0 < length (receivers (receiving empty_file))
   \<and> receivers (receiving empty_file) ! 0 = (''peer'', Some 0)
   \<and> map_of (peers (receiving empty_file)) ''peer'' = Some 0
   \<and> 0 < length (heap (receiving empty_file))
   \<and> receivedChunks (heap (receiving empty_file) ! 0) = []
   \<and> receivedBytes (heap (receiving empty_file) ! 0) = 0
   \<and> (\<exists>s. sendFileInChunks 16384 sample_stringify frozen open_channel empty_file = Some (Inr s)
        \<and> sent_frames (effects s) = [Text ''M'', Binary [], Text ''E'']
        \<and> log (run (sample_parse empty_file) (receiving empty_file)
                 (map (Message 0) (sent_frames (effects s)))) =
            [EmitSignal ''peer'' (SigAnswer ''answer''), OnProgress 0 (JNum 0),
             OnComplete \<lparr>blob_bytes = [], blob_type = JStr ''text/plain''\<rparr> (JStr ''e.txt'') ''peer''])"
proof -
  have h: "file_size empty_file = 0" "readyState open_channel = RS_open" "\<not> closes (frozen 0)"
     "sample_parse empty_file (sample_stringify (metadata_msg empty_file))
        = Some (metadata_msg empty_file)"
     "sample_parse empty_file (sample_stringify end_msg) = Some end_msg"
     "0 < length (receivers (receiving empty_file))"
     "receivers (receiving empty_file) ! 0 = (''peer'', Some 0)"
     "map_of (peers (receiving empty_file)) ''peer'' = Some 0"
     "0 < length (heap (receiving empty_file))"
     "receivedChunks (heap (receiving empty_file) ! 0) = []"
     "receivedBytes (heap (receiving empty_file) ! 0) = 0"
    by (simp_all add: receiving_empty)
      (simp_all add: file_size_def empty_file_def open_channel_def frozen_def
        sample_parse_def sample_stringify_def metadata_msg_def end_msg_def)
  from zero_byte_transfer[where f = empty_file and ch = open_channel and env = frozen
      and parse = "sample_parse empty_file" and stringify = sample_stringify
      and T = "receiving empty_file" and i = 0 and p = "''peer''" and a = 0 and C = 16384] h
  obtain s where s: "sendFileInChunks 16384 sample_stringify frozen open_channel empty_file = Some (Inr s)"
    "effects s = [ChannelSend (Text (sample_stringify (metadata_msg empty_file))),
                  ChannelSend (Binary []), OnProgress 0 (JNum 0),
                  ChannelSend (Text (sample_stringify end_msg))]"
    "log (run (sample_parse empty_file) (receiving empty_file)
                 (map (Message 0) (sent_frames (effects s)))) =
           log (receiving empty_file) @ [OnProgress 0 (JNum 0),
                    OnComplete \<lparr>blob_bytes = [], blob_type = JStr (file_type empty_file)\<rparr>
                      (JStr (file_name empty_file)) ''peer'']"
    by blast
  have "sent_frames (effects s) = [Text ''M'', Binary [], Text ''E'']"
    by (simp add: s(2) sample_stringify_def metadata_msg_def end_msg_def)
  moreover have "log (run (sample_parse empty_file) (receiving empty_file)
                 (map (Message 0) (sent_frames (effects s)))) =
            [EmitSignal ''peer'' (SigAnswer ''answer''), OnProgress 0 (JNum 0),
             OnComplete \<lparr>blob_bytes = [], blob_type = JStr ''text/plain''\<rparr> (JStr ''e.txt'') ''peer'']"
  proof -
    have "log (receiving empty_file) = [EmitSignal ''peer'' (SigAnswer ''answer'')]"
      by (simp add: receiving_empty)
    then show ?thesis unfolding s(3) by (simp add: empty_file_def)
  qed
  ultimately show ?thesis using s(1) h by blast
qed

text \<open>
  Claim C5 as stated fails: between the metadata frame and the end frame of the empty
  file there is a binary chunk.
\<close>

theorem zero_byte_sender_counterexample:
  "\<exists>s. sendFileInChunks 16384 sample_stringify frozen open_channel empty_file = Some (Inr s)
      \<and> sent_frames (effects s) = [Text ''M'', Binary [], Text ''E'']
      \<and> sent_chunks (effects s) \<noteq> []"
proof -
  have "sendFileInChunks 16384 sample_stringify frozen open_channel empty_file =
     Some (Inr \<lparr>chan = \<lparr>readyState = RS_open, bufferedAmount = 2\<rparr>, offset = 0,
          effects = [ChannelSend (Text ''M''), ChannelSend (Binary []),
                     OnProgress 0 (JNum 0), ChannelSend (Text ''E'')],
          tick = 1\<rparr>)"
    by code_simp
  then show ?thesis by (simp add: sent_chunks_def)
qed

section \<open>The round trip\<close>

lemma step_binary:
  assumes "i < length (receivers T)" and "receivers T ! i = (p, Some a)"
    and "a < length (heap T)" and "truthy (fileMetadata (heap T ! a))"
  shows "step parse T (Message i (Binary c)) =
     callback (mutate T a (\<lambda>pd. pd\<lparr>receivedChunks := receivedChunks pd @ [c],
                                    receivedBytes := receivedBytes pd + length c\<rparr>))
       (OnProgress (receivedBytes (heap T ! a) + length c)
          (read_prop (fileMetadata (heap T ! a)) ''fileSize''))"
  using assms by (simp add: onmessage_def Let_def)

lemma receive_binaries:
  assumes "i < length (receivers T)" and "receivers T ! i = (p, Some a)"
    and "a < length (heap T)" and "truthy (fileMetadata (heap T ! a))"
  shows "receivers (run parse T (map (\<lambda>c. Message i (Binary c)) cs)) = receivers T
     \<and> peers (run parse T (map (\<lambda>c. Message i (Binary c)) cs)) = peers T
     \<and> length (heap (run parse T (map (\<lambda>c. Message i (Binary c)) cs))) = length (heap T)
     \<and> fileMetadata (heap (run parse T (map (\<lambda>c. Message i (Binary c)) cs)) ! a)
          = fileMetadata (heap T ! a)
     \<and> receivedChunks (heap (run parse T (map (\<lambda>c. Message i (Binary c)) cs)) ! a)
          = receivedChunks (heap T ! a) @ cs
     \<and> log (run parse T (map (\<lambda>c. Message i (Binary c)) cs))
          = log T @ progress_reports (receivedBytes (heap T ! a))
                      (read_prop (fileMetadata (heap T ! a)) ''fileSize'') cs"
  using assms
proof (induction cs arbitrary: T)
  case Nil
  show ?case by simp
next
  case (Cons c cs)
  define T1 where "T1 = step parse T (Message i (Binary c))"
  have T1: "T1 = callback (mutate T a (\<lambda>pd. pd\<lparr>receivedChunks := receivedChunks pd @ [c],
                                    receivedBytes := receivedBytes pd + length c\<rparr>))
       (OnProgress (receivedBytes (heap T ! a) + length c)
          (read_prop (fileMetadata (heap T ! a)) ''fileSize''))"
    unfolding T1_def using Cons.prems by (rule step_binary)
  have f: "receivers T1 = receivers T" "peers T1 = peers T" "length (heap T1) = length (heap T)"
     "fileMetadata (heap T1 ! a) = fileMetadata (heap T ! a)"
     "receivedChunks (heap T1 ! a) = receivedChunks (heap T ! a) @ [c]"
     "receivedBytes (heap T1 ! a) = receivedBytes (heap T ! a) + length c"
     "log T1 = log T @ [OnProgress (receivedBytes (heap T ! a) + length c)
          (read_prop (fileMetadata (heap T ! a)) ''fileSize'')]"
    using Cons.prems(3) by (simp_all add: T1)
  have p: "i < length (receivers T1)" "receivers T1 ! i = (p, Some a)"
     "a < length (heap T1)" "truthy (fileMetadata (heap T1 ! a))"
    using Cons.prems f by simp_all
  have r: "run parse T (map (\<lambda>c. Message i (Binary c)) (c # cs))
      = run parse T1 (map (\<lambda>c. Message i (Binary c)) cs)"
    by (simp only: list.map run_Cons T1_def)
  from Cons.IH[OF p] show ?case unfolding r by (simp add: f)
qed

lemma receive_file:
  assumes pm: "parse sm = Some (metadata_msg f)" and pe: "parse se = Some end_msg"
    and i: "i < length (receivers T)" and r: "receivers T ! i = (p, Some a)"
    and reg: "map_of (peers T) p = Some a" and a: "a < length (heap T)"
    and fresh: "receivedChunks (heap T ! a) = []"
  shows "receivedChunks (heap (run parse T (map (Message i) (Text sm # map Binary cs))) ! a) = cs"
    and "log (run parse T (map (Message i) (Text sm # map Binary cs @ [Text se]))) =
           log T @ progress_reports (receivedBytes (heap T ! a)) (JNum (int (file_size f))) cs
             @ [OnComplete (Blob cs (JStr (file_type f))) (JStr (file_name f)) p]"
    and "map_of (peers (run parse T (map (Message i) (Text sm # map Binary cs @ [Text se])))) p = None"
proof -
  define T1 where "T1 = mutate T a (\<lambda>pd. pd\<lparr>fileMetadata := metadata_msg f\<rparr>)"
  define T2 where "T2 = run parse T1 (map (\<lambda>c. Message i (Binary c)) cs)"
  have s1: "step parse T (Message i (Text sm)) = T1"
    using i r pm by (simp add: onmessage_metadata metadata_msg_props T1_def)
  have T1_facts: "receivers T1 = receivers T" "peers T1 = peers T" "log T1 = log T"
      "length (heap T1) = length (heap T)"
      "heap T1 ! a = (heap T ! a)\<lparr>fileMetadata := metadata_msg f\<rparr>"
    using a by (simp_all add: T1_def)
  have p1: "i < length (receivers T1)" "receivers T1 ! i = (p, Some a)"
     "a < length (heap T1)" "truthy (fileMetadata (heap T1 ! a))"
    using i r a T1_facts by (simp_all add: metadata_msg_props)
  from receive_binaries[OF p1, of parse cs]
  have T2_facts: "receivers T2 = receivers T" "peers T2 = peers T"
     "fileMetadata (heap T2 ! a) = metadata_msg f"
     "receivedChunks (heap T2 ! a) = cs"
     "log T2 = log T @ progress_reports (receivedBytes (heap T ! a)) (JNum (int (file_size f))) cs"
    unfolding T2_def[symmetric] using T1_facts fresh by (simp_all add: metadata_msg_props)
  have m: "map (Message i) (map Binary cs) = map (\<lambda>c. Message i (Binary c)) cs" by simp
  have run1: "run parse T (map (Message i) (Text sm # map Binary cs)) = T2"
    unfolding list.map run_Cons s1 m T2_def ..
  have s3: "step parse T2 (Message i (Text se)) = assembleFile T2 p"
    using i r pe T2_facts by (simp add: onmessage_end end_msg_type)
  have asm: "assembleFile T2 p =
      cleanupPeer (callback T2 (OnComplete (Blob cs (JStr (file_type f))) (JStr (file_name f)) p)) p"
    using reg T2_facts by (simp add: assembleFile_def Let_def metadata_msg_props)
  have run2: "run parse T (map (Message i) (Text sm # map Binary cs @ [Text se])) = assembleFile T2 p"
  proof -
    have "run parse T (map (Message i) (Text sm # map Binary cs @ [Text se]))
        = run parse (run parse T (map (Message i) (Text sm # map Binary cs))) [Message i (Text se)]"
      using run_append[of parse T "map (Message i) (Text sm # map Binary cs)" "[Message i (Text se)]"]
      by simp
    also have "\<dots> = step parse T2 (Message i (Text se))"
      unfolding run1 by (simp only: run_Cons run_Nil)
    finally show ?thesis by (simp only: s3)
  qed
  show "receivedChunks (heap (run parse T (map (Message i) (Text sm # map Binary cs))) ! a) = cs"
    unfolding run1 by (rule T2_facts(4))
  show "log (run parse T (map (Message i) (Text sm # map Binary cs @ [Text se]))) =
           log T @ progress_reports (receivedBytes (heap T ! a)) (JNum (int (file_size f))) cs
             @ [OnComplete (Blob cs (JStr (file_type f))) (JStr (file_name f)) p]"
    unfolding run2 asm using reg T2_facts by (simp add: cleanupPeer_def)
  show "map_of (peers (run parse T (map (Message i) (Text sm # map Binary cs @ [Text se])))) p = None"
    unfolding run2 asm by (simp add: peers_cleanupPeer delete_conv')
qed

text \<open>
  Claim C1. For every file and every chunk size \<open>C > 0\<close>, on a channel that stays open,
  \<open>_sendFileInChunks\<close> returns; every chunk it sent has at most \<open>C\<close> bytes, every chunk
  but the last exactly \<open>C\<close>, and the chunks concatenate to the file. A receiver with a
  fresh session for the peer that is given the frames in order has buffered exactly
  these chunks when the end frame arrives, and \<open>_assembleFile\<close> then completes with a
  blob whose bytes are the bytes of the file.
\<close>

theorem chunk_roundtrip:
  assumes "0 < C" and "\<forall>k. \<not> closes (env k)" and "readyState ch = RS_open"
    and "parse (stringify (metadata_msg f)) = Some (metadata_msg f)"
    and "parse (stringify end_msg) = Some end_msg"
    and "i < length (receivers T)" and "receivers T ! i = (p, Some a)"
    and "map_of (peers T) p = Some a" and "a < length (heap T)"
    and "receivedChunks (heap T ! a) = []"
  shows "\<exists>s. sendFileInChunks C stringify env ch f = Some (Inr s)
       \<and> (\<forall>c \<in> set (sent_chunks (effects s)). length c \<le> C)
       \<and> (\<forall>c \<in> set (butlast (sent_chunks (effects s))). length c = C)
       \<and> concat (sent_chunks (effects s)) = file_bytes f
       \<and> receivedChunks (heap (run parse T (map (Message i) (butlast (sent_frames (effects s))))) ! a)
           = sent_chunks (effects s)
       \<and> log (run parse T (map (Message i) (sent_frames (effects s)))) =
           log T
           @ progress_reports (receivedBytes (heap T ! a)) (JNum (int (file_size f)))
               (sent_chunks (effects s))
           @ [OnComplete \<lparr>blob_bytes = file_bytes f, blob_type = JStr (file_type f)\<rparr>
                (JStr (file_name f)) p]"
proof -
  obtain s cs where R: "sendFileInChunks C stringify env ch f = Some (Inr s)"
      "sent_frames (effects s) =
           Text (stringify (metadata_msg f)) # map Binary cs @ [Text (stringify end_msg)]"
      "concat cs = file_bytes f"
      "\<forall>c \<in> set cs. length c \<le> C" "\<forall>c \<in> set (butlast cs). length c = C"
    using sendFileInChunks_open[OF assms(1,2,3), of stringify f] by blast
  have chunks: "sent_chunks (effects s) = cs"
    by (simp add: sent_chunks_def R(2) payloads_append payloads_Binary)
  have bl: "butlast (sent_frames (effects s)) = Text (stringify (metadata_msg f)) # map Binary cs"
    unfolding R(2) by (simp add: butlast_append)
  note rf = receive_file[OF assms(4,5,6,7,8,9,10), of cs]
  have "receivedChunks (heap (run parse T (map (Message i) (butlast (sent_frames (effects s))))) ! a)
           = cs"
    unfolding bl by (rule rf(1))
  moreover have "log (run parse T (map (Message i) (sent_frames (effects s)))) =
           log T @ progress_reports (receivedBytes (heap T ! a)) (JNum (int (file_size f))) cs
           @ [OnComplete \<lparr>blob_bytes = file_bytes f, blob_type = JStr (file_type f)\<rparr>
                (JStr (file_name f)) p]"
    unfolding R(2) using rf(2) R(3) by (simp add: Blob_def)
  ultimately show ?thesis using R(1,3,4,5) unfolding chunks[symmetric] by blast
qed

theorem chunk_roundtrip_witness:
  "0 < (2::nat) \<and> (\<forall>k. \<not> closes (frozen k)) \<and> readyState open_channel = RS_open
   \<and> sample_parse five_bytes (sample_stringify (metadata_msg five_bytes))
        = Some (metadata_msg five_bytes)
   \<and> sample_parse five_bytes (sample_stringify end_msg) = Some end_msg
   \<and> 0 < length (receivers (receiving five_bytes))
   \<and> receivers (receiving five_bytes) ! 0 = (''peer'', Some 0)
   \<and> map_of (peers (receiving five_bytes)) ''peer'' = Some 0
   \<and> 0 < length (heap (receiving five_bytes))
   \<and> receivedChunks (heap (receiving five_bytes) ! 0) = []
   \<and> (\<exists>s. sendFileInChunks 2 sample_stringify frozen open_channel five_bytes = Some (Inr s)
        \<and> sent_chunks (effects s) = [[1, 2], [3, 4], [5]]
        \<and> receivedChunks (heap (run (sample_parse five_bytes) (receiving five_bytes)
              (map (Message 0) (butlast (sent_frames (effects s))))) ! 0) = [[1, 2], [3, 4], [5]]
        \<and> log (run (sample_parse five_bytes) (receiving five_bytes)
                 (map (Message 0) (sent_frames (effects s)))) =
            [EmitSignal ''peer'' (SigAnswer ''answer''),
             OnProgress 2 (JNum 5), OnProgress 4 (JNum 5), OnProgress 5 (JNum 5),
             OnComplete \<lparr>blob_bytes = [1, 2, 3, 4, 5], blob_type = JStr ''x/y''\<rparr>
               (JStr ''a.bin'') ''peer''])"
proof -
  have h: "0 < (2::nat)" "\<forall>k. \<not> closes (frozen k)" "readyState open_channel = RS_open"
     "sample_parse five_bytes (sample_stringify (metadata_msg five_bytes))
        = Some (metadata_msg five_bytes)"
     "sample_parse five_bytes (sample_stringify end_msg) = Some end_msg"
     "0 < length (receivers (receiving five_bytes))"
     "receivers (receiving five_bytes) ! 0 = (''peer'', Some 0)"
     "map_of (peers (receiving five_bytes)) ''peer'' = Some 0"
     "0 < length (heap (receiving five_bytes))"
     "receivedChunks (heap (receiving five_bytes) ! 0) = []"
    by (simp_all add: receiving_five)
       (simp_all add: frozen_def open_channel_def sample_parse_def sample_stringify_def
          metadata_msg_def end_msg_def)
  have run: "sendFileInChunks 2 sample_stringify frozen open_channel five_bytes =
    Some (Inr \<lparr>chan = \<lparr>readyState = RS_open, bufferedAmount = 7\<rparr>, offset = 5,
          effects =
            [ChannelSend (Text ''M''), ChannelSend (Binary [1, 2]),
             OnProgress 2 (JNum 5), ChannelSend (Binary [3, 4]),
             OnProgress 4 (JNum 5), ChannelSend (Binary [5]),
             OnProgress 5 (JNum 5), ChannelSend (Text ''E'')],
          tick = 3\<rparr>)"
    by code_simp
  from chunk_roundtrip[where C = 2 and env = frozen and ch = open_channel
      and parse = "sample_parse five_bytes" and stringify = sample_stringify and f = five_bytes
      and T = "receiving five_bytes" and i = 0 and p = "''peer''" and a = 0] h
  obtain s where s: "sendFileInChunks 2 sample_stringify frozen open_channel five_bytes = Some (Inr s)"
    "receivedChunks (heap (run (sample_parse five_bytes) (receiving five_bytes)
              (map (Message 0) (butlast (sent_frames (effects s))))) ! 0) = sent_chunks (effects s)"
    "log (run (sample_parse five_bytes) (receiving five_bytes)
                 (map (Message 0) (sent_frames (effects s)))) =
           log (receiving five_bytes)
           @ progress_reports (receivedBytes (heap (receiving five_bytes) ! 0))
               (JNum (int (file_size five_bytes))) (sent_chunks (effects s))
           @ [OnComplete \<lparr>blob_bytes = file_bytes five_bytes, blob_type = JStr (file_type five_bytes)\<rparr>
                (JStr (file_name five_bytes)) ''peer'']"
    by blast
  from s(1) run have ch: "sent_chunks (effects s) = [[1, 2], [3, 4], [5]]"
    by (auto simp: sent_chunks_def)
  have lg: "log (receiving five_bytes) = [EmitSignal ''peer'' (SigAnswer ''answer'')]"
     "receivedBytes (heap (receiving five_bytes) ! 0) = 0"
    by (simp_all add: receiving_five)
  have "log (run (sample_parse five_bytes) (receiving five_bytes)
                 (map (Message 0) (sent_frames (effects s)))) =
            [EmitSignal ''peer'' (SigAnswer ''answer''),
             OnProgress 2 (JNum 5), OnProgress 4 (JNum 5), OnProgress 5 (JNum 5),
             OnComplete \<lparr>blob_bytes = [1, 2, 3, 4, 5], blob_type = JStr ''x/y''\<rparr>
               (JStr ''a.bin'') ''peer'']"
    unfolding s(3) ch lg by (simp add: five_bytes_def file_size_def)
  with s(1,2) ch h show ?thesis by auto
qed

end
